theory Spec2Isabelle
  imports Complex_Main
begin

section \<open>Numbers, values and errors\<close>

text \<open>
  The extractor is ES3 JavaScript. Its numbers are modelled as reals (finite numbers,
  exact arithmetic); the values a keyframe can carry after normalisation are a number,
  an array of numbers, a string, a boolean, or \<open>null\<close>. A JavaScript exception is an
  explicit error value: \<open>TypeError\<close> for a member read on \<open>undefined\<close>,
  \<open>HostError\<close> for a host accessor that throws, and \<open>StackOverflow\<close> for a call
  that does not fit the engine's stack.
\<close>

datatype error = TypeError | HostError | StackOverflow

datatype jsval = Num real | Arr "real list" | Str string | Bool bool | Null

text \<open>Reading \<open>a[i]\<close> on a JavaScript array: \<open>undefined\<close> (here \<open>None\<close>) when out of range.\<close>

definition js_index :: "'a list \<Rightarrow> int \<Rightarrow> 'a option" where
  "js_index xs i = (if 0 \<le> i \<and> i < int (length xs) then Some (xs ! nat i) else None)"

text \<open>\<open>Math.round\<close> rounds to the nearest integer, a half upwards.\<close>

definition js_round :: "real \<Rightarrow> int" where
  "js_round v = \<lfloor>v + 1 / 2\<rfloor>"

text \<open>\<open>Math.round(v * 10000) / 10000\<close>\<close>

definition round4 :: "real \<Rightarrow> real" where
  "round4 v = real_of_int (js_round (v * 10000)) / 10000"

text \<open>\<open>Math.max(0, Math.min(1, v))\<close>\<close>

definition clamp01 :: "real \<Rightarrow> real" where
  "clamp01 v = max 0 (min 1 v)"

section \<open>Easing conversion (extractors/easing.jsx)\<close>

text \<open>
  One entry of a \<open>keyInTemporalEase\<close> / \<open>keyOutTemporalEase\<close> array, and the
  cubic bezier the converters return. The y coordinates are optional reals: \<open>None\<close>
  is NaN, which one copy of the converter can produce from finite inputs (an empty value
  array). The \<open>css\<close> field of the source is the decimal rendering of the four
  coordinates and carries no further information; it is left out.
\<close>

record ease =
  speed :: real
  influence :: real

record bezier =
  x1 :: real
  y1 :: "real option"
  x2 :: real
  y2 :: "real option"

definition identity_bezier :: bezier where
  "identity_bezier = \<lparr>x1 = 0, y1 = Some 0, x2 = 1, y2 = Some 1\<rparr>"

definition EPSILON :: real where
  "EPSILON = 1 / 10000"

text \<open>
  \<open>convertEasingToCubicBezier\<close>: the converter that does not know the value change.
  Both copies of easing.jsx define it identically. \<open>outEase[0]\<close> on an empty array is
  \<open>undefined\<close>, and reading \<open>.speed\<close> from it throws.
\<close>

definition convertEasingToCubicBezier :: "ease list \<Rightarrow> ease list \<Rightarrow> real \<Rightarrow> error + bezier" where
  "convertEasingToCubicBezier outEase inEaseNext duration =
     (case js_index outEase 0 of
        None \<Rightarrow> Inl TypeError
      | Some oe \<Rightarrow>
          (case js_index inEaseNext 0 of
             None \<Rightarrow> Inl TypeError
           | Some ie \<Rightarrow>
               (let outSpeed = speed oe;
                    outInfluence = influence oe / 100;
                    inSpeed = speed ie;
                    inInfluence = influence ie / 100;
                    xa = outInfluence;
                    xb = 1 - inInfluence;
                    ya = (if outSpeed = 0 then 0 else xa);
                    yb = (if inSpeed = 0 then 1 else xb)
                in Inr \<lparr>x1 = round4 (clamp01 xa), y1 = Some (round4 ya),
                        x2 = round4 (clamp01 xb), y2 = Some (round4 yb)\<rparr>)))"

text \<open>
  The part of \<open>convertEasingWithValues\<close> after the guard, which both copies share word
  for word: from the chosen outgoing and incoming ease entries and \<open>linearSpeed\<close> to the
  clamped and rounded curve. The division by \<open>linearSpeed\<close> happens here.
\<close>

definition easeToBezier :: "ease \<Rightarrow> ease \<Rightarrow> real \<Rightarrow> bezier" where
  "easeToBezier oe ie linearSpeed =
     (let outSpeed = speed oe;
          outInfluence = influence oe / 100;
          inSpeed = speed ie;
          inInfluence = influence ie / 100;
          xa = outInfluence;
          xb = 1 - inInfluence;
          ya = xa * (\<bar>outSpeed\<bar> / linearSpeed);
          yb = 1 - inInfluence * (\<bar>inSpeed\<bar> / linearSpeed)
      in \<lparr>x1 = round4 (clamp01 xa), y1 = Some (round4 ya),
          x2 = round4 (clamp01 xb), y2 = Some (round4 yb)\<rparr>)"

text \<open>\<open>var linearSpeed = Math.abs(valueChange / duration)\<close>\<close>

definition linearSpeed_of :: "real \<Rightarrow> real \<Rightarrow> real" where
  "linearSpeed_of valueChange duration = \<bar>valueChange / duration\<bar>"

subsection \<open>The copy under packages/ae-extendscript: first dimension only\<close>

text \<open>
  The value change this copy computes: the difference of two numbers, the difference of
  the first elements of two arrays, and 0 for anything else. Element 0 of an empty array
  is \<open>undefined\<close> and the difference is then NaN, written \<open>None\<close>.
\<close>

fun firstDimChange :: "jsval \<Rightarrow> jsval \<Rightarrow> real option" where
  "firstDimChange (Num s) (Num e) = Some (e - s)"
| "firstDimChange (Arr s) (Arr e) =
     (case (js_index e 0, js_index s 0) of
        (Some e0, Some s0) \<Rightarrow> Some (e0 - s0)
      | _ \<Rightarrow> None)"
| "firstDimChange _ _ = Some 0"

text \<open>
  The same steps with a NaN \<open>linearSpeed\<close>: the x coordinates do not depend on it,
  both y coordinates are NaN.
\<close>

definition easeToBezierNaN :: "ease \<Rightarrow> ease \<Rightarrow> bezier" where
  "easeToBezierNaN oe ie =
     (let outInfluence = influence oe / 100;
          inInfluence = influence ie / 100;
          xa = outInfluence;
          xb = 1 - inInfluence
      in \<lparr>x1 = round4 (clamp01 xa), y1 = None, x2 = round4 (clamp01 xb), y2 = None\<rparr>)"

text \<open>
  \<open>convertEasingWithValues\<close> of packages/ae-extendscript/src/extractors/easing.jsx.
  With a NaN value change the comparison \<open>Math.abs(valueChange) < 0.0001\<close> is false, so
  only the duration test can take the guard.
\<close>

definition convertEasingWithValues0 ::
  "ease list \<Rightarrow> ease list \<Rightarrow> real \<Rightarrow> jsval \<Rightarrow> jsval \<Rightarrow> error + bezier" where
  "convertEasingWithValues0 outEase inEaseNext duration startValue endValue =
     (case firstDimChange startValue endValue of
        None \<Rightarrow>
          (if duration < EPSILON then Inr identity_bezier
           else (case (js_index outEase 0, js_index inEaseNext 0) of
                   (Some oe, Some ie) \<Rightarrow> Inr (easeToBezierNaN oe ie)
                 | _ \<Rightarrow> Inl TypeError))
      | Some valueChange \<Rightarrow>
          (if \<bar>valueChange\<bar> < EPSILON \<or> duration < EPSILON then Inr identity_bezier
           else (case (js_index outEase 0, js_index inEaseNext 0) of
                   (Some oe, Some ie) \<Rightarrow>
                     Inr (easeToBezier oe ie (linearSpeed_of valueChange duration))
                 | _ \<Rightarrow> Inl TypeError)))"

subsection \<open>The dimension-aware copy (findBestDimension)\<close>

text \<open>
  The loop of \<open>findBestDimension\<close> over \<open>i < Math.min(startValue.length, endValue.length)\<close>,
  run over the paired elements; the state is \<open>(bestDim, bestChange)\<close>.
\<close>

fun bestDimLoop :: "(real \<times> real) list \<Rightarrow> nat \<Rightarrow> nat \<times> real \<Rightarrow> nat \<times> real" where
  "bestDimLoop [] i best = best"
| "bestDimLoop ((s, e) # rest) i (bestDim, bestChange) =
     (if \<bar>e - s\<bar> > \<bar>bestChange\<bar>
      then bestDimLoop rest (Suc i) (i, e - s)
      else bestDimLoop rest (Suc i) (bestDim, bestChange))"

text \<open>\<open>findBestDimension\<close> returns \<open>{dimIndex, valueChange}\<close>.\<close>

fun findBestDimension :: "jsval \<Rightarrow> jsval \<Rightarrow> nat \<times> real" where
  "findBestDimension (Num s) (Num e) = (0, e - s)"
| "findBestDimension (Arr s) (Arr e) = bestDimLoop (zip s e) 0 (0, 0)"
| "findBestDimension _ _ = (0, 0)"

text \<open>
  The dimension-aware \<open>convertEasingWithValues\<close>. The ease index is clamped to the
  length of each ease array; on an empty array it is \<open>-1\<close> and the read throws.
\<close>

definition convertEasingWithValues ::
  "ease list \<Rightarrow> ease list \<Rightarrow> real \<Rightarrow> jsval \<Rightarrow> jsval \<Rightarrow> error + bezier" where
  "convertEasingWithValues outEase inEaseNext duration startValue endValue =
     (let best = findBestDimension startValue endValue;
          valueChange = snd best;
          dimIndex = int (fst best)
      in if \<bar>valueChange\<bar> < EPSILON \<or> duration < EPSILON then Inr identity_bezier
         else
           (let linearSpeed = linearSpeed_of valueChange duration;
                easeDim = min dimIndex (int (length outEase) - 1);
                easeInDim = min dimIndex (int (length inEaseNext) - 1)
            in case (js_index outEase easeDim, js_index inEaseNext easeInDim) of
                 (Some oe, Some ie) \<Rightarrow> Inr (easeToBezier oe ie linearSpeed)
               | _ \<Rightarrow> Inl TypeError))"

section \<open>Bezier sampling (figma-plugin/src/utils/bezier-math.ts)\<close>

record point =
  point_x :: real
  point_y :: real

text \<open>\<open>sampleCubicBezier\<close>: the cubic through (0,0), (cx1,cy1), (cx2,cy2), (1,1) at \<open>t\<close>.\<close>

definition sampleCubicBezier :: "real \<Rightarrow> real \<Rightarrow> real \<Rightarrow> real \<Rightarrow> real \<Rightarrow> point" where
  "sampleCubicBezier cx1 cy1 cx2 cy2 t =
     (let mt = 1 - t;
          mt2 = mt * mt;
          mt3 = mt2 * mt;
          t2 = t * t;
          t3 = t2 * t
      in \<lparr>point_x = mt3 * 0 + 3 * mt2 * t * cx1 + 3 * mt * t2 * cx2 + t3 * 1,
          point_y = mt3 * 0 + 3 * mt2 * t * cy1 + 3 * mt * t2 * cy2 + t3 * 1\<rparr>)"

text \<open>
  The \<open>for\<close> loop of \<open>bezierYForX\<close> with \<open>n\<close> iterations left and the current
  parameter \<open>t\<close>. An iteration returns when the residual is below \<open>epsilon\<close>, leaves
  the loop (\<open>break\<close>) when the derivative is below \<open>epsilon\<close>, and otherwise takes a
  Newton step and clamps. After the loop the curve is sampled at the last \<open>t\<close>.
\<close>

fun newtonLoop :: "nat \<Rightarrow> real \<Rightarrow> real \<Rightarrow> real \<Rightarrow> real \<Rightarrow> real \<Rightarrow> real \<Rightarrow> real \<Rightarrow> real" where
  "newtonLoop 0 cx1 cy1 cx2 cy2 targetX epsilon t =
     point_y (sampleCubicBezier cx1 cy1 cx2 cy2 t)"
| "newtonLoop (Suc n) cx1 cy1 cx2 cy2 targetX epsilon t =
     (let pt = sampleCubicBezier cx1 cy1 cx2 cy2 t;
          dx = point_x pt - targetX
      in if \<bar>dx\<bar> < epsilon then point_y pt
         else
           (let mt = 1 - t;
                dxdt = 3 * mt * mt * cx1 + 6 * mt * t * (cx2 - cx1) + 3 * t * t * (1 - cx2)
            in if \<bar>dxdt\<bar> < epsilon then point_y (sampleCubicBezier cx1 cy1 cx2 cy2 t)
               else newtonLoop n cx1 cy1 cx2 cy2 targetX epsilon
                      (max 0 (min 1 (t - dx / dxdt)))))"

declare newtonLoop.simps [simp del]

text \<open>\<open>bezierYForX\<close>: ten iterations from the initial guess \<open>t = targetX\<close>.\<close>

definition bezierYForX :: "real \<Rightarrow> real \<Rightarrow> real \<Rightarrow> real \<Rightarrow> real \<Rightarrow> real \<Rightarrow> real" where
  "bezierYForX cx1 cy1 cx2 cy2 targetX epsilon =
     newtonLoop 10 cx1 cy1 cx2 cy2 targetX epsilon targetX"

text \<open>The default value of the parameter \<open>epsilon\<close>.\<close>

definition bezierYForX_default :: "real \<Rightarrow> real \<Rightarrow> real \<Rightarrow> real \<Rightarrow> real \<Rightarrow> real" where
  "bezierYForX_default cx1 cy1 cx2 cy2 targetX = bezierYForX cx1 cy1 cx2 cy2 targetX (1 / 10000)"

section \<open>Keyframe extraction (extractors/keyframe.jsx)\<close>

text \<open>
  The host's objects are reached only through accessors that may throw. A read is
  \<open>None\<close> when it throws. Where the source also tests the result for truthiness, the
  read has three outcomes.
\<close>

datatype 'a read = Throws | Falsy | Got 'a

datatype PropertyValueType =
  NO_VALUE | ThreeD_SPATIAL | ThreeD | TwoD_SPATIAL | TwoD | OneD | COLOR | CUSTOM_VALUE
  | MARKER | LAYER_INDEX | MASK_INDEX | SHAPE | TEXT_DOCUMENT

text \<open>
  A value as the host hands it over: a number, an array, a string, a boolean, or
  anything else, given by what \<open>String(val)\<close> makes of it (\<open>None\<close> when that throws).
\<close>

datatype rawval = RNum real | RArr "real list" | RStr string | RBool bool | RObj "string option"

text \<open>
  A \<open>KeyframeInterpolationType\<close> enum value, by what \<open>Number(type)\<close> and \<open>String(type)\<close>
  make of it.
\<close>

record hostEnum =
  enumNumber :: int
  enumString :: string

text \<open>An After Effects \<open>Property\<close>; keyframe accessors take the 1-based key index.\<close>

record hostProperty =
  prop_name :: "string option"
  prop_matchName :: "string option"
  propertyValueType :: "PropertyValueType option"
  isTimeVarying :: "bool option"
  numKeys :: "int option"
  prop_value :: "rawval option"
  expressionEnabled :: "bool option"
  prop_expression :: "string option"
  keyTime :: "int \<Rightarrow> real option"
  keyValue :: "int \<Rightarrow> rawval option"
  keyInInterpolationType :: "int \<Rightarrow> hostEnum option"
  keyOutInterpolationType :: "int \<Rightarrow> hostEnum option"
  keyInTemporalEase :: "int \<Rightarrow> ease list option"
  keyOutTemporalEase :: "int \<Rightarrow> ease list option"
  keyInSpatialTangent :: "int \<Rightarrow> real list read"
  keyOutSpatialTangent :: "int \<Rightarrow> real list read"
  keyRoving :: "int \<Rightarrow> bool option"
  keyTemporalAutoBezier :: "int \<Rightarrow> bool option"
  keyTemporalContinuous :: "int \<Rightarrow> bool option"
  keySpatialAutoBezier :: "int \<Rightarrow> bool option"
  keySpatialContinuous :: "int \<Rightarrow> bool option"

text \<open>
  \<open>interpolationTypeToString\<close>. The enum members \<open>LINEAR\<close>, \<open>BEZIER\<close> and \<open>HOLD\<close>
  are the values whose number is 6612, 6613 and 6614, so the second round of
  comparisons, against the members themselves, cannot succeed where the first failed.
\<close>

definition interpolationTypeToString :: "hostEnum \<Rightarrow> string" where
  "interpolationTypeToString type =
     (let code = enumNumber type
      in if code = 6612 then ''LINEAR''
         else if code = 6613 then ''BEZIER''
         else if code = 6614 then ''HOLD''
         else enumString type)"

text \<open>\<open>normalizeKeyValue\<close>\<close>

fun normalizeKeyValue :: "rawval \<Rightarrow> jsval" where
  "normalizeKeyValue (RNum v) = Num v"
| "normalizeKeyValue (RArr vs) = Arr vs"
| "normalizeKeyValue (RStr s) = Str s"
| "normalizeKeyValue (RBool b) = Bool b"
| "normalizeKeyValue (RObj (Some s)) = Str s"
| "normalizeKeyValue (RObj None) = Null"

text \<open>\<open>getPropertyValue\<close>: \<open>null\<close> when the value cannot be read.\<close>

definition getPropertyValue :: "hostProperty \<Rightarrow> jsval" where
  "getPropertyValue property =
     (case prop_value property of
        None \<Rightarrow> Null
      | Some val \<Rightarrow> normalizeKeyValue val)"

record temporalEasing =
  inSpeed :: "real list"
  inInfluence :: "real list"
  outSpeed :: "real list"
  outInfluence :: "real list"
  cubicBezier :: "bezier option"

record spatialEasing =
  inTangent :: "real list"
  outTangent :: "real list"

text \<open>
  A keyframe descriptor. \<open>None\<close> in \<open>kf_interpolationType\<close> and \<open>kf_temporalEasing\<close> is
  the \<open>null\<close> the source stores when the read fails; in the remaining optional fields it
  is a field that was never set.
\<close>

record keyframe =
  kf_index :: int
  kf_time :: real
  kf_frame :: int
  kf_value :: jsval
  kf_interpolationType :: "(string \<times> string) option"
  kf_temporalEasing :: "temporalEasing option"
  kf_spatialEasing :: "spatialEasing option"
  kf_roving :: "bool option"
  kf_temporalAutoBezier :: "bool option"
  kf_temporalContinuous :: "bool option"
  kf_spatialAutoBezier :: "bool option"
  kf_spatialContinuous :: "bool option"

type_synonym converter = "ease list \<Rightarrow> ease list \<Rightarrow> real \<Rightarrow> jsval \<Rightarrow> jsval \<Rightarrow> error + bezier"

text \<open>
  The bezier of the outgoing segment of key \<open>i\<close>, for \<open>i < numKeys\<close>: the value-aware
  converter on the next key's incoming ease, time and value; when anything in that
  throws, the simplified converter; when that throws too, \<open>null\<close>. Which copy of
  \<open>convertEasingWithValues\<close> the build links is the parameter \<open>conv\<close>.
\<close>

definition segmentBezier ::
  "converter \<Rightarrow> hostProperty \<Rightarrow> int \<Rightarrow> real \<Rightarrow> jsval \<Rightarrow> ease list \<Rightarrow> bezier option" where
  "segmentBezier conv property i time val outEase =
     (let first =
            (case keyInTemporalEase property (i + 1) of
               None \<Rightarrow> Inl HostError
             | Some inEaseNext \<Rightarrow>
                 (case keyTime property (i + 1) of
                    None \<Rightarrow> Inl HostError
                  | Some nextTime \<Rightarrow>
                      (case keyValue property (i + 1) of
                         None \<Rightarrow> Inl HostError
                       | Some nextValue \<Rightarrow>
                           conv outEase inEaseNext (nextTime - time) val
                             (normalizeKeyValue nextValue))))
      in case first of
           Inr easing \<Rightarrow> Some easing
         | Inl e \<Rightarrow>
             (case keyInTemporalEase property (i + 1) of
                None \<Rightarrow> None
              | Some inEaseNext \<Rightarrow>
                  (case keyTime property (i + 1) of
                     None \<Rightarrow> None
                   | Some nextTime \<Rightarrow>
                       (case convertEasingToCubicBezier outEase inEaseNext (nextTime - time) of
                          Inl e2 \<Rightarrow> None
                        | Inr easing \<Rightarrow> Some easing))))"

text \<open>The temporal-easing block of one keyframe; \<open>null\<close> when either ease read throws.\<close>

definition extractTemporalEasing ::
  "converter \<Rightarrow> hostProperty \<Rightarrow> int \<Rightarrow> int \<Rightarrow> real \<Rightarrow> jsval \<Rightarrow> temporalEasing option" where
  "extractTemporalEasing conv property nKeys i time val =
     (case keyOutTemporalEase property i of
        None \<Rightarrow> None
      | Some outEase \<Rightarrow>
          (case keyInTemporalEase property i of
             None \<Rightarrow> None
           | Some inEase \<Rightarrow>
               Some \<lparr>inSpeed = map speed inEase,
                     inInfluence = map influence inEase,
                     outSpeed = map speed outEase,
                     outInfluence = map influence outEase,
                     cubicBezier =
                       (if i < nKeys then segmentBezier conv property i time val outEase
                        else None)\<rparr>))"

text \<open>The spatial-tangent block: set only when both reads succeed and both are truthy.\<close>

definition extractSpatialEasing :: "hostProperty \<Rightarrow> int \<Rightarrow> spatialEasing option" where
  "extractSpatialEasing property i =
     (case keyInSpatialTangent property i of
        Got inT \<Rightarrow>
          (case keyOutSpatialTangent property i of
             Got outT \<Rightarrow> Some \<lparr>inTangent = inT, outTangent = outT\<rparr>
           | _ \<Rightarrow> None)
      | _ \<Rightarrow> None)"

text \<open>
  The body of the loop of \<open>extractKeyframes\<close> for key \<open>i\<close>: \<open>None\<close> is the \<open>continue\<close>
  taken when \<open>keyTime(i)\<close> throws, before anything is pushed.
\<close>

definition extractKeyframe ::
  "converter \<Rightarrow> hostProperty \<Rightarrow> real \<Rightarrow> int \<Rightarrow> int \<Rightarrow> keyframe option" where
  "extractKeyframe conv property frameRate nKeys i =
     (case keyTime property i of
        None \<Rightarrow> None
      | Some time \<Rightarrow>
          (let val = (case keyValue property i of
                        None \<Rightarrow> Null
                      | Some v \<Rightarrow> normalizeKeyValue v)
           in Some \<lparr>kf_index = i,
                    kf_time = time,
                    kf_frame = js_round (time * frameRate),
                    kf_value = val,
                    kf_interpolationType =
                      (case keyInInterpolationType property i of
                         None \<Rightarrow> None
                       | Some inType \<Rightarrow>
                           (case keyOutInterpolationType property i of
                              None \<Rightarrow> None
                            | Some outType \<Rightarrow>
                                Some (interpolationTypeToString inType,
                                      interpolationTypeToString outType))),
                    kf_temporalEasing = extractTemporalEasing conv property nKeys i time val,
                    kf_spatialEasing = extractSpatialEasing property i,
                    kf_roving = keyRoving property i,
                    kf_temporalAutoBezier = keyTemporalAutoBezier property i,
                    kf_temporalContinuous = keyTemporalContinuous property i,
                    kf_spatialAutoBezier = keySpatialAutoBezier property i,
                    kf_spatialContinuous = keySpatialContinuous property i\<rparr>))"

text \<open>The loop \<open>for (i = 1; i <= numKeys; i++)\<close>, from \<open>i\<close> on, pushing onto \<open>keyframes\<close>.\<close>

function keyframesLoop ::
  "converter \<Rightarrow> hostProperty \<Rightarrow> real \<Rightarrow> int \<Rightarrow> int \<Rightarrow> keyframe list \<Rightarrow> keyframe list" where
  "keyframesLoop conv property frameRate nKeys i keyframes =
     (if i \<le> nKeys
      then (case extractKeyframe conv property frameRate nKeys i of
              None \<Rightarrow> keyframesLoop conv property frameRate nKeys (i + 1) keyframes
            | Some kf \<Rightarrow> keyframesLoop conv property frameRate nKeys (i + 1) (keyframes @ [kf]))
      else keyframes)"
  by pat_completeness auto
termination
  by (relation "measure (\<lambda>(conv, property, frameRate, nKeys, i, keyframes). nat (nKeys + 1 - i))") auto

declare keyframesLoop.simps [simp del]

text \<open>\<open>extractKeyframes\<close>: the read of \<open>numKeys\<close> is outside every \<open>try\<close>.\<close>

definition extractKeyframes :: "converter \<Rightarrow> hostProperty \<Rightarrow> real \<Rightarrow> error + keyframe list" where
  "extractKeyframes conv property frameRate =
     (case numKeys property of
        None \<Rightarrow> Inl HostError
      | Some n \<Rightarrow> Inr (keyframesLoop conv property frameRate n 1 []))"

text \<open>The descriptor of a property; an optional field is \<open>None\<close> when it was never set.\<close>

record animatedProperty =
  ap_name :: "string option"
  ap_matchName :: "string option"
  ap_isAnimated :: bool
  ap_dimensions :: int
  ap_expression :: "string option"
  ap_staticValue :: "jsval option"
  ap_keyframes :: "keyframe list option"

text \<open>
  \<open>extractAnimatedProperty\<close>: \<open>Inr None\<close> is the \<open>null\<close> returned for a property of
  type \<open>NO_VALUE\<close>; an exception can only come from \<open>extractKeyframes\<close>.
\<close>

definition extractAnimatedProperty ::
  "converter \<Rightarrow> hostProperty \<Rightarrow> real \<Rightarrow> error + animatedProperty option" where
  "extractAnimatedProperty conv property frameRate =
     (if propertyValueType property = Some NO_VALUE then Inr None
      else
        (let animated = (case isTimeVarying property of None \<Rightarrow> False | Some b \<Rightarrow> b);
             dims = (case propertyValueType property of
                       None \<Rightarrow> 1
                     | Some vt \<Rightarrow>
                         if vt = ThreeD_SPATIAL \<or> vt = ThreeD then 3
                         else if vt = TwoD_SPATIAL \<or> vt = TwoD then 2
                         else 1);
             expr = (case expressionEnabled property of
                       Some True \<Rightarrow>
                         (case prop_expression property of
                            Some e \<Rightarrow> if e \<noteq> [] then Some e else None
                          | None \<Rightarrow> None)
                     | _ \<Rightarrow> None)
         in if animated
            then (case extractKeyframes conv property frameRate of
                    Inl err \<Rightarrow> Inl err
                  | Inr kfs \<Rightarrow>
                      Inr (Some \<lparr>ap_name = prop_name property,
                                 ap_matchName = prop_matchName property,
                                 ap_isAnimated = animated,
                                 ap_dimensions = dims,
                                 ap_expression = expr,
                                 ap_staticValue = None,
                                 ap_keyframes = Some kfs\<rparr>))
            else Inr (Some \<lparr>ap_name = prop_name property,
                            ap_matchName = prop_matchName property,
                            ap_isAnimated = animated,
                            ap_dimensions = dims,
                            ap_expression = expr,
                            ap_staticValue = Some (getPropertyValue property),
                            ap_keyframes = None\<rparr>)))"

section \<open>Animation summary (extractors/layer.jsx)\<close>

text \<open>
  The transform block of a layer as \<open>extractTransform\<close> builds it. A slot is \<open>None\<close>
  when it is \<open>undefined\<close> (never set, or its extraction threw) or \<open>null\<close>; the code
  only ever tests a slot for truthiness.
\<close>

record positionSeparated =
  sep_x :: "animatedProperty option"
  sep_y :: "animatedProperty option"
  sep_z :: "animatedProperty option"

record transformProperties =
  anchorPoint :: "animatedProperty option"
  position :: "animatedProperty option"
  scale :: "animatedProperty option"
  rotation :: "animatedProperty option"
  opacity :: "animatedProperty option"
  rotationX :: "animatedProperty option"
  rotationY :: "animatedProperty option"
  rotationZ :: "animatedProperty option"
  orientation :: "animatedProperty option"
  positionSeparated :: "positionSeparated option"

record propertySummary =
  ps_name :: "string option"
  ps_keyframeCount :: int
  ps_startValue :: jsval
  ps_endValue :: jsval
  ps_duration :: real
  ps_delay :: real
  ps_easing :: "bezier option"

record animationSummary =
  sum_isAnimated :: bool
  sum_animatedPropertyCount :: int
  sum_totalKeyframes :: int
  sum_properties :: "propertySummary list"

text \<open>
  \<open>checkProp\<close>, the closure inside \<open>computeAnimationSummary\<close> that updates \<open>summary\<close>;
  the summary is passed in and returned.
\<close>

definition checkProp :: "animatedProperty option \<Rightarrow> animationSummary \<Rightarrow> animationSummary" where
  "checkProp prop summary =
     (case prop of
        None \<Rightarrow> summary
      | Some p \<Rightarrow>
          if \<not> ap_isAnimated p then summary
          else
            (case ap_keyframes p of
               None \<Rightarrow> summary
             | Some kfs \<Rightarrow>
                 if length kfs < 2 then summary
                 else
                   (let firstKf = kfs ! 0;
                        lastKf = kfs ! (length kfs - 1)
                    in \<lparr>sum_isAnimated = True,
                        sum_animatedPropertyCount = sum_animatedPropertyCount summary + 1,
                        sum_totalKeyframes = sum_totalKeyframes summary + int (length kfs),
                        sum_properties = sum_properties summary @
                          [\<lparr>ps_name = ap_name p,
                            ps_keyframeCount = int (length kfs),
                            ps_startValue = kf_value firstKf,
                            ps_endValue = kf_value lastKf,
                            ps_duration = kf_time lastKf - kf_time firstKf,
                            ps_delay = kf_time firstKf,
                            ps_easing =
                              (case kf_temporalEasing firstKf of
                                 None \<Rightarrow> None
                               | Some te \<Rightarrow> cubicBezier te)\<rparr>]\<rparr>)))"

definition emptySummary :: animationSummary where
  "emptySummary =
     \<lparr>sum_isAnimated = False, sum_animatedPropertyCount = 0, sum_totalKeyframes = 0,
      sum_properties = []\<rparr>"

text \<open>The array \<open>propsToCheck\<close>: five fixed slots, then each 3D rotation axis that is set.\<close>

definition propsToCheck :: "transformProperties \<Rightarrow> animatedProperty option list" where
  "propsToCheck transform =
     [anchorPoint transform, position transform, scale transform, rotation transform,
      opacity transform]
     @ (case rotationX transform of None \<Rightarrow> [] | Some r \<Rightarrow> [Some r])
     @ (case rotationY transform of None \<Rightarrow> [] | Some r \<Rightarrow> [Some r])
     @ (case rotationZ transform of None \<Rightarrow> [] | Some r \<Rightarrow> [Some r])"

text \<open>
  \<open>computeAnimationSummary\<close>, on the \<open>transform\<close> field of the layer data, the only
  field it reads.
\<close>

definition computeAnimationSummary :: "transformProperties option \<Rightarrow> animationSummary" where
  "computeAnimationSummary layerTransform =
     (case layerTransform of
        None \<Rightarrow> emptySummary
      | Some transform \<Rightarrow>
          (let summary = fold checkProp (propsToCheck transform) emptySummary
           in case positionSeparated transform of
                None \<Rightarrow> summary
              | Some sep \<Rightarrow>
                  (let sx = checkProp (sep_x sep) summary;
                       sy = checkProp (sep_y sep) sx
                   in case sep_z sep of
                        None \<Rightarrow> sy
                      | Some z \<Rightarrow> checkProp (Some z) sy)))"

section \<open>The property walker (utils/property-walker.jsx)\<close>

text \<open>
  The host's property tree is a store of nodes addressed by references, so that a node
  can be its own descendant. A node answers the accessors the walker and the shape
  extractor use; as a \<open>Property\<close> it answers the accessors of \<open>hostProperty\<close>.
  \<open>numProperties\<close> is \<open>Falsy\<close> when it is not a number; when it is one it can be any
  JavaScript number, the infinities and NaN included.
\<close>

datatype jsnum = Finite real | PosInfinity | NegInfinity | NaN

type_synonym ref = nat

datatype PropertyType = PROPERTY | INDEXED_GROUP | NAMED_GROUP

record hostNode =
  numProperties :: "jsnum read"
  property_at :: "int \<Rightarrow> ref read"
  property_named :: "string \<Rightarrow> ref read"
  propertyType :: "PropertyType option"
  node_name :: "string option"
  node_matchName :: "string option"
  asProperty :: hostProperty

type_synonym heap = "ref \<Rightarrow> hostNode"

text \<open>
  The comparisons \<open>numProps <= 0\<close>, \<open>numProps > 0\<close> and \<open>i <= numProps\<close>. A
  comparison with NaN is false.
\<close>

definition js_le_zero :: "jsnum \<Rightarrow> bool" where
  "js_le_zero n = (case n of Finite r \<Rightarrow> r \<le> 0 | NegInfinity \<Rightarrow> True | _ \<Rightarrow> False)"

definition js_gt_zero :: "jsnum \<Rightarrow> bool" where
  "js_gt_zero n = (case n of Finite r \<Rightarrow> 0 < r | PosInfinity \<Rightarrow> True | _ \<Rightarrow> False)"

definition js_int_le :: "int \<Rightarrow> jsnum \<Rightarrow> bool" where
  "js_int_le i n = (case n of Finite r \<Rightarrow> real_of_int i \<le> r | PosInfinity \<Rightarrow> True | _ \<Rightarrow> False)"

text \<open>
  \<open>i++\<close> on a loop counter. The counter is a double that holds an integer: the
  increment is exact below \<open>2^53\<close>, and \<open>2^53 + 1\<close> rounds back to \<open>2^53\<close>.
\<close>

definition js_increment :: "int \<Rightarrow> int" where
  "js_increment i = (if i < 2 ^ 53 then i + 1 else i)"

text \<open>
  The header \<open>for (...; i <= numProps; i++)\<close> of the loops of the walker and of the
  shape extractor, from the counter value \<open>i\<close>. A loop over an infinite count never
  ends, so the header is run for at most \<open>budget\<close> iterations: the result is the indices
  visited, in order, and whether the loop has ended, that is whether its condition has
  failed. No loop body assigns \<open>i\<close> or \<open>numProps\<close>, and none has a \<open>break\<close>.
\<close>

fun loopIndices :: "nat \<Rightarrow> int \<Rightarrow> jsnum \<Rightarrow> int list \<times> bool" where
  "loopIndices 0 i numProps = ([], \<not> js_int_le i numProps)"
| "loopIndices (Suc budget) i numProps =
     (if js_int_le i numProps
      then (let rest = loopIndices budget (js_increment i) numProps
            in (i # fst rest, snd rest))
      else ([], True))"

definition PROPERTY_WALK_MAX_DEPTH :: int where
  "PROPERTY_WALK_MAX_DEPTH = 20"

text \<open>
  The callback is any function of the node, the depth and a state of its own; it returns
  whether it threw, and the state it left. The walker's state is that state together with
  a log of the walker's own steps, which the source does not keep: \<open>Enter g d\<close> when the
  children of group \<open>g\<close> are about to be enumerated at depth \<open>d\<close>, \<open>Call p d\<close> when the
  callback is invoked as \<open>callback(p, d)\<close>. The flag \<open>unfinished\<close> is set when a loop
  was cut by the budget: the state is then the one the run had reached at the cut, and
  nothing later in the run is modelled.
\<close>

datatype walkEvent = Enter ref int | Call ref int

type_synonym 's callback = "ref \<Rightarrow> int \<Rightarrow> 's \<Rightarrow> bool \<times> 's"

record 's walk =
  unfinished :: bool
  events :: "walkEvent list"
  cbState :: 's

definition invoke :: "'s callback \<Rightarrow> ref \<Rightarrow> int \<Rightarrow> 's walk \<Rightarrow> bool \<times> 's walk" where
  "invoke cb prop depth w =
     (let r = cb prop depth (cbState w)
      in (fst r, w\<lparr>events := events w @ [Call prop depth], cbState := snd r\<rparr>))"

text \<open>\<open>depth\<close> defaults to 0 when it is \<open>undefined\<close> or \<open>null\<close>.\<close>

definition depthOrDefault :: "int option \<Rightarrow> int" where
  "depthOrDefault depth = (case depth of None \<Rightarrow> 0 | Some d \<Rightarrow> d)"

text \<open>
  The \<open>catch\<close> block of the loop body, entered when the read of \<open>propertyType\<close> or
  the callback throws: it probes \<open>numProperties\<close> and either recurses or invokes the
  callback, and swallows whatever that throws. \<open>recur prop\<close> is the recursive call
  \<open>walkPropertyGroup(prop, callback, depth + 1)\<close>.
\<close>

definition walkRecover ::
  "(ref \<Rightarrow> 's walk \<Rightarrow> 's walk) \<Rightarrow> heap \<Rightarrow> 's callback \<Rightarrow> int \<Rightarrow> ref \<Rightarrow> 's walk \<Rightarrow> 's walk" where
  "walkRecover recur h cb depth prop w =
     (case numProperties (h prop) of
        Throws \<Rightarrow> w
      | Falsy \<Rightarrow> snd (invoke cb prop depth w)
      | Got n \<Rightarrow> if js_gt_zero n then recur prop w else snd (invoke cb prop depth w))"

text \<open>
  The body of the loop for child index \<open>i\<close> of group \<open>g\<close>. It is not run once the
  run has been cut.
\<close>

definition walkChild ::
  "(ref \<Rightarrow> 's walk \<Rightarrow> 's walk) \<Rightarrow> heap \<Rightarrow> 's callback \<Rightarrow> int \<Rightarrow> ref \<Rightarrow> int \<Rightarrow> 's walk \<Rightarrow> 's walk" where
  "walkChild recur h cb depth g i w =
     (if unfinished w then w
      else
        (case property_at (h g) i of
           Throws \<Rightarrow> w
         | Falsy \<Rightarrow> w
         | Got prop \<Rightarrow>
             (case propertyType (h prop) of
                None \<Rightarrow> walkRecover recur h cb depth prop w
              | Some PROPERTY \<Rightarrow>
                  (let r = invoke cb prop depth w
                   in if fst r then walkRecover recur h cb depth prop (snd r) else snd r)
              | Some other \<Rightarrow> recur prop w)))"

text \<open>
  \<open>walkPropertyGroup\<close>, with every \<open>for\<close> loop run for at most \<open>budget\<close> iterations:
  the loop body is folded over the indices the header visits, and the run is marked
  unfinished when the header has not ended within the budget.
\<close>

function walkPropertyGroup ::
  "nat \<Rightarrow> heap \<Rightarrow> 's callback \<Rightarrow> ref option \<Rightarrow> int option \<Rightarrow> 's walk \<Rightarrow> 's walk" where
  "walkPropertyGroup budget h cb propertyGroup depth0 w =
     (if depthOrDefault depth0 > PROPERTY_WALK_MAX_DEPTH then w
      else
        (case propertyGroup of
           None \<Rightarrow> w
         | Some g \<Rightarrow>
             (case numProperties (h g) of
                Throws \<Rightarrow> w
              | Falsy \<Rightarrow> w
              | Got numProps \<Rightarrow>
                  if js_le_zero numProps then w
                  else
                    (let after =
                       fold
                         (walkChild
                            (\<lambda>prop s. walkPropertyGroup budget h cb (Some prop)
                                         (Some (depthOrDefault depth0 + 1)) s)
                            h cb (depthOrDefault depth0) g)
                         (fst (loopIndices budget 1 numProps))
                         (w\<lparr>events := events w @ [Enter g (depthOrDefault depth0)]\<rparr>)
                     in if snd (loopIndices budget 1 numProps) then after
                        else after\<lparr>unfinished := True\<rparr>))))"
  by pat_completeness auto
termination
  by (relation "measure (\<lambda>(budget, h, cb, propertyGroup, depth0, w).
        nat (PROPERTY_WALK_MAX_DEPTH + 1 - depthOrDefault depth0))")
     (auto simp: depthOrDefault_def PROPERTY_WALK_MAX_DEPTH_def)

declare walkPropertyGroup.simps [simp del]

section \<open>Shape extraction (extractors/shape.jsx)\<close>

text \<open>\<open>getShapeType\<close>\<close>

definition getShapeType :: "string \<Rightarrow> string" where
  "getShapeType matchName =
     (if matchName = ''ADBE Vector Group'' then ''group''
      else if matchName = ''ADBE Vector Shape - Group'' then ''path''
      else if matchName = ''ADBE Vector Graphic - Fill'' then ''fill''
      else if matchName = ''ADBE Vector Graphic - Stroke'' then ''stroke''
      else if matchName = ''ADBE Vector Filter - Trim'' then ''trim''
      else if matchName = ''ADBE Vector Transform Group'' then ''transform''
      else if matchName = ''ADBE Vector Shape - Rect'' then ''rectangle''
      else if matchName = ''ADBE Vector Shape - Ellipse'' then ''ellipse''
      else if matchName = ''ADBE Vector Shape - Star'' then ''polystar''
      else if matchName = ''ADBE Vector Filter - Merge'' then ''merge''
      else if matchName = ''ADBE Vector Filter - Repeater'' then ''repeater''
      else if matchName = ''ADBE Vector Filter - RC'' then ''roundCorners''
      else ''unknown'')"

text \<open>
  One iteration of the loop that \<open>extractShapeElementProperties\<close> and
  \<open>extractGroupProperties\<close> both run: the whole body is inside one \<open>try\<close>, so any
  exception skips the sub-property. \<open>frameRate\<close> is the module variable
  \<open>_shapeExtractFrameRate\<close>, passed explicitly.
\<close>

definition pushSubProperty ::
  "heap \<Rightarrow> converter \<Rightarrow> real \<Rightarrow> ref \<Rightarrow> int \<Rightarrow> animatedProperty option list \<Rightarrow> animatedProperty option list" where
  "pushSubProperty h conv frameRate parent i results =
     (case property_at (h parent) i of
        Throws \<Rightarrow> results
      | Falsy \<Rightarrow> results
      | Got subProp \<Rightarrow>
          (case propertyValueType (asProperty (h subProp)) of
             None \<Rightarrow> results
           | Some vt \<Rightarrow>
               if vt \<noteq> NO_VALUE \<and> vt \<noteq> CUSTOM_VALUE
               then (case extractAnimatedProperty conv (asProperty (h subProp)) frameRate of
                       Inl e \<Rightarrow> results
                     | Inr d \<Rightarrow> results @ [d])
               else results))"

text \<open>
  \<open>extractShapeElementProperties\<close> and \<open>extractGroupProperties\<close>, their loops run for
  at most \<open>budget\<close> iterations; \<open>None\<close> is a loop that has not ended within the budget.
  Nothing leaves these loops by an exception.
\<close>

definition extractShapeElementProperties ::
  "nat \<Rightarrow> heap \<Rightarrow> converter \<Rightarrow> real \<Rightarrow> ref \<Rightarrow> animatedProperty option list option" where
  "extractShapeElementProperties budget h conv frameRate shapeElement =
     (case numProperties (h shapeElement) of
        Throws \<Rightarrow> Some []
      | Falsy \<Rightarrow> Some []
      | Got numProps \<Rightarrow>
          if js_le_zero numProps then Some []
          else if snd (loopIndices budget 1 numProps)
          then Some (fold (pushSubProperty h conv frameRate shapeElement)
                       (fst (loopIndices budget 1 numProps)) [])
          else None)"

definition extractGroupProperties ::
  "nat \<Rightarrow> heap \<Rightarrow> converter \<Rightarrow> real \<Rightarrow> ref \<Rightarrow> animatedProperty option list option" where
  "extractGroupProperties budget h conv frameRate transformGroup =
     (case numProperties (h transformGroup) of
        Throws \<Rightarrow> Some []
      | Falsy \<Rightarrow> Some []
      | Got numProps \<Rightarrow>
          if js_le_zero numProps then Some []
          else if snd (loopIndices budget 1 numProps)
          then Some (fold (pushSubProperty h conv frameRate transformGroup)
                       (fst (loopIndices budget 1 numProps)) [])
          else None)"

text \<open>
  One entry of the array \<open>extractShapeGroup\<close> returns; \<open>si_contents\<close> and
  \<open>si_properties\<close> are \<open>None\<close> when the field was never set.
\<close>

datatype shapeItem =
  ShapeItem (si_name: string) (si_matchName: string) (si_type: string)
    (si_contents: "shapeItem list option")
    (si_properties: "animatedProperty option list option")

text \<open>
  The \<open>contents\<close> field of a vector group, with the recursive call as the parameter
  \<open>recur\<close>. The outer \<open>None\<close> is a recursive call that has not returned within the
  budget; \<open>Some None\<close> is the field left unset because the group has no contents. The
  read and the recursive call are inside one \<open>try\<close>: whatever they throw, the stack
  overflow of the recursive call included, is caught and the contents become the empty
  array.
\<close>

definition groupContents ::
  "(ref \<Rightarrow> (error + shapeItem list) option) \<Rightarrow> heap \<Rightarrow> ref \<Rightarrow> shapeItem list option option" where
  "groupContents recur h prop =
     (case property_named (h prop) ''ADBE Vectors Group'' of
        Throws \<Rightarrow> Some (Some [])
      | Falsy \<Rightarrow> Some None
      | Got subContents \<Rightarrow>
          (case recur subContents of
             None \<Rightarrow> None
           | Some (Inl e) \<Rightarrow> Some (Some [])
           | Some (Inr items) \<Rightarrow> Some (Some items)))"

text \<open>
  The \<open>properties\<close> field of a vector group: those of its transform group. The outer
  \<open>None\<close> is a loop of \<open>extractGroupProperties\<close> that has not ended within the budget.
\<close>

definition groupTransformProperties ::
  "nat \<Rightarrow> heap \<Rightarrow> converter \<Rightarrow> real \<Rightarrow> ref \<Rightarrow> animatedProperty option list option option" where
  "groupTransformProperties budget h conv frameRate prop =
     (case property_named (h prop) ''ADBE Vector Transform Group'' of
        Throws \<Rightarrow> Some (Some [])
      | Falsy \<Rightarrow> Some None
      | Got groupTransform \<Rightarrow>
          (case extractGroupProperties budget h conv frameRate groupTransform of
             None \<Rightarrow> None
           | Some props \<Rightarrow> Some (Some props)))"

text \<open>
  The item built for one child. The reads of \<open>prop.name\<close> and \<open>prop.matchName\<close> are
  outside every \<open>try\<close>: when one throws, the whole call of \<open>extractShapeGroup\<close> throws.
\<close>

definition shapeItemOf ::
  "(ref \<Rightarrow> (error + shapeItem list) option) \<Rightarrow> nat \<Rightarrow> heap \<Rightarrow> converter \<Rightarrow> real \<Rightarrow> ref \<Rightarrow>
   (error + shapeItem) option" where
  "shapeItemOf recur budget h conv frameRate prop =
     (case node_name (h prop) of
        None \<Rightarrow> Some (Inl HostError)
      | Some nm \<Rightarrow>
          (case node_matchName (h prop) of
             None \<Rightarrow> Some (Inl HostError)
           | Some mn \<Rightarrow>
               if mn = ''ADBE Vector Group''
               then (case groupContents recur h prop of
                       None \<Rightarrow> None
                     | Some contents \<Rightarrow>
                         (case groupTransformProperties budget h conv frameRate prop of
                            None \<Rightarrow> None
                          | Some props \<Rightarrow>
                              Some (Inr (ShapeItem nm mn (getShapeType mn) contents props))))
               else (case extractShapeElementProperties budget h conv frameRate prop of
                       None \<Rightarrow> None
                     | Some props \<Rightarrow>
                         Some (Inr (ShapeItem nm mn (getShapeType mn) None (Some props))))))"

text \<open>
  The body of the loop of \<open>extractShapeGroup\<close> run over the indices \<open>is\<close>, pushing
  onto \<open>result\<close>; a child that cannot be fetched, or is falsy, is skipped.
\<close>

fun shapeLoop ::
  "(ref \<Rightarrow> (error + shapeItem list) option) \<Rightarrow> nat \<Rightarrow> heap \<Rightarrow> converter \<Rightarrow> real \<Rightarrow> ref \<Rightarrow>
   int list \<Rightarrow> shapeItem list \<Rightarrow> (error + shapeItem list) option" where
  "shapeLoop recur budget h conv frameRate propertyGroup [] result = Some (Inr result)"
| "shapeLoop recur budget h conv frameRate propertyGroup (i # rest) result =
     (case property_at (h propertyGroup) i of
        Throws \<Rightarrow> shapeLoop recur budget h conv frameRate propertyGroup rest result
      | Falsy \<Rightarrow> shapeLoop recur budget h conv frameRate propertyGroup rest result
      | Got prop \<Rightarrow>
          (case shapeItemOf recur budget h conv frameRate prop of
             None \<Rightarrow> None
           | Some (Inl e) \<Rightarrow> Some (Inl e)
           | Some (Inr item) \<Rightarrow>
               shapeLoop recur budget h conv frameRate propertyGroup rest (result @ [item])))"

text \<open>
  \<open>extractShapeGroup\<close>. The source has no bound on its recursion and the store may be
  cyclic; what ends a recursion that does not end by itself is the engine's call stack.
  \<open>stack\<close> is the number of nested calls of \<open>extractShapeGroup\<close> the stack has room
  for, the calls of the other functions being taken to fit: a call with no room left
  throws \<open>StackOverflow\<close>, which the \<open>try\<close> around the recursive call catches. Every
  loop is run for at most \<open>budget\<close> iterations; \<open>None\<close> is a call in which a loop has
  neither ended nor been left by an exception within the budget.
\<close>

primrec extractShapeGroup ::
  "nat \<Rightarrow> nat \<Rightarrow> heap \<Rightarrow> converter \<Rightarrow> real \<Rightarrow> ref \<Rightarrow> (error + shapeItem list) option" where
  "extractShapeGroup 0 = (\<lambda>budget h conv frameRate propertyGroup. Some (Inl StackOverflow))"
| "extractShapeGroup (Suc stack) = (\<lambda>budget h conv frameRate propertyGroup.
     (case numProperties (h propertyGroup) of
        Throws \<Rightarrow> Some (Inr [])
      | Falsy \<Rightarrow> Some (Inr [])
      | Got numProps \<Rightarrow>
          if js_le_zero numProps then Some (Inr [])
          else
            (case shapeLoop (extractShapeGroup stack budget h conv frameRate) budget h conv
                    frameRate propertyGroup (fst (loopIndices budget 1 numProps)) [] of
               None \<Rightarrow> None
             | Some (Inl e) \<Rightarrow> Some (Inl e)
             | Some (Inr result) \<Rightarrow>
                 if snd (loopIndices budget 1 numProps) then Some (Inr result) else None)))"

text \<open>
  \<open>extractShapeData\<close>: sets the module variable when \<open>frameRate\<close> is a positive number,
  and returns the extraction together with the variable's new value.
\<close>

definition extractShapeData ::
  "nat \<Rightarrow> nat \<Rightarrow> heap \<Rightarrow> converter \<Rightarrow> real \<Rightarrow> ref \<Rightarrow> real option \<Rightarrow>
   (error + shapeItem list) option \<times> real" where
  "extractShapeData stack budget h conv shapeExtractFrameRate shapeLayer frameRate =
     (let fr = (case frameRate of
                  None \<Rightarrow> shapeExtractFrameRate
                | Some f \<Rightarrow> if f > 0 then f else shapeExtractFrameRate)
      in (case property_named (h shapeLayer) ''ADBE Root Vectors Group'' of
            Throws \<Rightarrow> Some (Inr [])
          | Falsy \<Rightarrow> Some (Inr [])
          | Got contents \<Rightarrow> extractShapeGroup stack budget h conv fr contents,
          fr))"

section \<open>The summary as the specification words it\<close>

text \<open>
  The definitions of this section follow the specification, not the source; the
  source's \<open>computeAnimationSummary\<close> is compared with them. The scanned properties are
  the transform slots that are set, in the order anchor point, position, scale,
  rotation, opacity, the three 3D rotation axes, and the separated position axes.
\<close>

fun setSlots :: "'a option list \<Rightarrow> 'a list" where
  "setSlots [] = []"
| "setSlots (None # slots) = setSlots slots"
| "setSlots (Some p # slots) = p # setSlots slots"

text \<open>The slots in scanning order, set or not.\<close>

definition allSlots :: "transformProperties \<Rightarrow> animatedProperty option list" where
  "allSlots transform =
     [anchorPoint transform, position transform, scale transform, rotation transform,
      opacity transform, rotationX transform, rotationY transform, rotationZ transform]
     @ (case positionSeparated transform of
          None \<Rightarrow> []
        | Some sep \<Rightarrow> [sep_x sep, sep_y sep, sep_z sep])"

definition spec_scanned :: "transformProperties \<Rightarrow> animatedProperty list" where
  "spec_scanned transform = setSlots (allSlots transform)"

text \<open>A property qualifies when its keyframe list has length at least 2.\<close>

definition spec_qualifies :: "animatedProperty \<Rightarrow> bool" where
  "spec_qualifies p = (case ap_keyframes p of None \<Rightarrow> False | Some kfs \<Rightarrow> 2 \<le> length kfs)"

text \<open>
  The entry of a qualifying property: count, first and last value, last time minus first
  time, first time, and the bezier of the first keyframe's segment (\<open>null\<close> when the
  first keyframe has no temporal easing or no bezier).
\<close>

definition spec_summaryEntry :: "animatedProperty \<Rightarrow> propertySummary" where
  "spec_summaryEntry p =
     (let kfs = the (ap_keyframes p)
      in \<lparr>ps_name = ap_name p,
          ps_keyframeCount = int (length kfs),
          ps_startValue = kf_value (hd kfs),
          ps_endValue = kf_value (last kfs),
          ps_duration = kf_time (last kfs) - kf_time (hd kfs),
          ps_delay = kf_time (hd kfs),
          ps_easing = (case kf_temporalEasing (hd kfs) of
                         None \<Rightarrow> None
                       | Some te \<Rightarrow> cubicBezier te)\<rparr>)"

section \<open>Notions used in the proofs about the summary\<close>

text \<open>The invariant of the running summary that \<open>checkProp\<close> maintains.\<close>

definition summaryConsistent :: "animationSummary \<Rightarrow> bool" where
  "summaryConsistent s \<longleftrightarrow>
     sum_animatedPropertyCount s = int (length (sum_properties s)) \<and>
     sum_totalKeyframes s = sum_list (map ps_keyframeCount (sum_properties s)) \<and>
     (sum_isAnimated s \<longleftrightarrow> 0 < sum_animatedPropertyCount s)"

text \<open>What one slot adds to \<open>properties\<close>.\<close>

definition contribution :: "animatedProperty option \<Rightarrow> propertySummary list" where
  "contribution prop =
     (case prop of
        None \<Rightarrow> []
      | Some p \<Rightarrow> if ap_isAnimated p \<and> spec_qualifies p then [spec_summaryEntry p] else [])"

section \<open>Notions used in the proofs about the walker\<close>

text \<open>The depth an event of the walker's log was recorded at.\<close>

fun eventDepth :: "walkEvent \<Rightarrow> int" where
  "eventDepth (Enter g d) = d"
| "eventDepth (Call p d) = d"

text \<open>
  Every event of the log of \<open>w\<close> either was already in the log \<open>base\<close> or was recorded
  at a depth between \<open>lo\<close> and the maximum depth.
\<close>

definition logBounded :: "walkEvent list \<Rightarrow> int \<Rightarrow> 's walk \<Rightarrow> bool" where
  "logBounded base lo w \<longleftrightarrow>
     (\<forall>ev \<in> set (events w). ev \<in> set base \<or>
        (lo \<le> eventDepth ev \<and> eventDepth ev \<le> PROPERTY_WALK_MAX_DEPTH))"

text \<open>
  The loop over the count \<open>numProps\<close> ends within \<open>budget\<close> iterations.
\<close>

definition loopEnds :: "nat \<Rightarrow> jsnum \<Rightarrow> bool" where
  "loopEnds budget numProps = snd (loopIndices budget 1 numProps)"

text \<open>
  The counts a loop counter can pass: NaN, minus infinity, and the finite numbers below
  \<open>2^53\<close>, where the counter stops growing.
\<close>

definition finiteCount :: "jsnum \<Rightarrow> bool" where
  "finiteCount numProps =
     (case numProps of Finite r \<Rightarrow> r < 2 ^ 53 | PosInfinity \<Rightarrow> False | _ \<Rightarrow> True)"

section \<open>Notions used in the proofs about the shape extractor\<close>




section \<open>Notions used in the proofs about the sampling primitive\<close>

text \<open>The x coordinate, and the y coordinate, of the identity curve (0,0,1,1) at \<open>t\<close>.\<close>

definition identityX :: "real \<Rightarrow> real" where
  "identityX t = 3 * t\<^sup>2 - 2 * t ^ 3"

section \<open>Example inputs\<close>

text \<open>
  A host \<open>Opacity\<close> property with two keyframes, 0 at time 0 and 100 at time 1, Easy
  Ease (speed 0, influence 33.33 percent) on both sides of both keys, and no spatial
  tangents.
\<close>

definition easyEase :: "ease list" where
  "easyEase = [\<lparr>speed = 0, influence = 100 / 3\<rparr>]"

definition bezierEnum :: hostEnum where
  "bezierEnum = \<lparr>enumNumber = 6613, enumString = ''6613''\<rparr>"

definition opacityHost :: hostProperty where
  "opacityHost =
     \<lparr>prop_name = Some ''Opacity'',
      prop_matchName = Some ''ADBE Opacity'',
      propertyValueType = Some OneD,
      isTimeVarying = Some True,
      numKeys = Some 2,
      prop_value = Some (RNum 0),
      expressionEnabled = Some False,
      prop_expression = Some [],
      keyTime = (\<lambda>i. if i = 1 then Some 0 else if i = 2 then Some 1 else None),
      keyValue = (\<lambda>i. if i = 1 then Some (RNum 0) else if i = 2 then Some (RNum 100) else None),
      keyInInterpolationType = (\<lambda>i. Some bezierEnum),
      keyOutInterpolationType = (\<lambda>i. Some bezierEnum),
      keyInTemporalEase = (\<lambda>i. Some easyEase),
      keyOutTemporalEase = (\<lambda>i. Some easyEase),
      keyInSpatialTangent = (\<lambda>i. Throws),
      keyOutSpatialTangent = (\<lambda>i. Throws),
      keyRoving = (\<lambda>i. Some False),
      keyTemporalAutoBezier = (\<lambda>i. Some False),
      keyTemporalContinuous = (\<lambda>i. Some False),
      keySpatialAutoBezier = (\<lambda>i. None),
      keySpatialContinuous = (\<lambda>i. None)\<rparr>"

text \<open>The same property when the host throws on \<open>keyTime(1)\<close>.\<close>

definition opacityHostUnreadable :: hostProperty where
  "opacityHostUnreadable = opacityHost\<lparr>keyTime := (\<lambda>i. if i = 2 then Some 1 else None)\<rparr>"

text \<open>
  A property driven by an expression: the host reports it as time-varying, and it has no
  keyframes.
\<close>

definition expressionHost :: hostProperty where
  "expressionHost =
     opacityHost\<lparr>numKeys := Some 0,
                 expressionEnabled := Some True,
                 prop_expression := Some ''wiggle(2, 30)'',
                 keyTime := (\<lambda>i. None),
                 keyValue := (\<lambda>i. None)\<rparr>"

text \<open>A property that is not animated.\<close>

definition staticHost :: hostProperty where
  "staticHost =
     opacityHost\<lparr>prop_name := Some ''Scale'',
                 prop_matchName := Some ''ADBE Scale'',
                 propertyValueType := Some TwoD,
                 isTimeVarying := Some False,
                 numKeys := Some 0,
                 prop_value := Some (RArr [100, 100]),
                 keyTime := (\<lambda>i. None),
                 keyValue := (\<lambda>i. None)\<rparr>"

text \<open>The keyframes and the descriptor expected for the \<open>Opacity\<close> property at 30 fps.\<close>

definition opacityKeyframes :: "keyframe list" where
  "opacityKeyframes =
     [\<lparr>kf_index = 1, kf_time = 0, kf_frame = 0, kf_value = Num 0,
       kf_interpolationType = Some (''BEZIER'', ''BEZIER''),
       kf_temporalEasing =
         Some \<lparr>inSpeed = [0], inInfluence = [100 / 3], outSpeed = [0],
               outInfluence = [100 / 3],
               cubicBezier = Some \<lparr>x1 = 3333 / 10000, y1 = Some 0,
                                    x2 = 6667 / 10000, y2 = Some 1\<rparr>\<rparr>,
       kf_spatialEasing = None, kf_roving = Some False,
       kf_temporalAutoBezier = Some False, kf_temporalContinuous = Some False,
       kf_spatialAutoBezier = None, kf_spatialContinuous = None\<rparr>,
      \<lparr>kf_index = 2, kf_time = 1, kf_frame = 30, kf_value = Num 100,
       kf_interpolationType = Some (''BEZIER'', ''BEZIER''),
       kf_temporalEasing =
         Some \<lparr>inSpeed = [0], inInfluence = [100 / 3], outSpeed = [0],
               outInfluence = [100 / 3], cubicBezier = None\<rparr>,
       kf_spatialEasing = None, kf_roving = Some False,
       kf_temporalAutoBezier = Some False, kf_temporalContinuous = Some False,
       kf_spatialAutoBezier = None, kf_spatialContinuous = None\<rparr>]"

definition opacityDescriptor :: animatedProperty where
  "opacityDescriptor =
     \<lparr>ap_name = Some ''Opacity'', ap_matchName = Some ''ADBE Opacity'',
      ap_isAnimated = True, ap_dimensions = 1, ap_expression = None,
      ap_staticValue = None, ap_keyframes = Some opacityKeyframes\<rparr>"

definition scaleDescriptor :: animatedProperty where
  "scaleDescriptor =
     \<lparr>ap_name = Some ''Scale'', ap_matchName = Some ''ADBE Scale'',
      ap_isAnimated = False, ap_dimensions = 2, ap_expression = None,
      ap_staticValue = Some (Arr [100, 100]), ap_keyframes = None\<rparr>"

text \<open>A transform block with the animated opacity, a static scale and nothing else.\<close>

definition opacityTransform :: transformProperties where
  "opacityTransform =
     \<lparr>anchorPoint = None, position = None, scale = Some scaleDescriptor, rotation = None,
      opacity = Some opacityDescriptor, rotationX = None, rotationY = None,
      rotationZ = None, orientation = None, positionSeparated = None\<rparr>"

text \<open>
  A self-referential property structure: group 0 has two children, the leaf property 1
  and group 0 itself. The callback counts its invocations and never throws.
\<close>

definition leafNode :: hostNode where
  "leafNode =
     \<lparr>numProperties = Falsy,
      property_at = (\<lambda>i. Falsy),
      property_named = (\<lambda>n. Falsy),
      propertyType = Some PROPERTY,
      node_name = Some ''Opacity'',
      node_matchName = Some ''ADBE Opacity'',
      asProperty = opacityHost\<rparr>"

definition cyclicHeap :: heap where
  "cyclicHeap r =
     (if r = 0
      then \<lparr>numProperties = Got (Finite 2),
            property_at = (\<lambda>i. if i = 1 then Got 1 else if i = 2 then Got 0 else Falsy),
            property_named = (\<lambda>n. Falsy),
            propertyType = Some NAMED_GROUP,
            node_name = Some ''Transform'',
            node_matchName = Some ''ADBE Transform Group'',
            asProperty = staticHost\<rparr>
      else leafNode)"

definition countingCallback :: "nat callback" where
  "countingCallback prop depth n = (False, Suc n)"

text \<open>
  A group that reports \<open>n\<close> children and answers every index with the leaf 1; \<open>n\<close>
  can be \<open>Infinity\<close>.
\<close>

definition endlessHeap :: "jsnum \<Rightarrow> heap" where
  "endlessHeap n r =
     (if r = 0
      then \<lparr>numProperties = Got n,
            property_at = (\<lambda>i. Got 1),
            property_named = (\<lambda>n. Falsy),
            propertyType = Some NAMED_GROUP,
            node_name = Some ''Transform'',
            node_matchName = Some ''ADBE Transform Group'',
            asProperty = staticHost\<rparr>
      else leafNode)"

text \<open>The state a walk starts in: nothing logged, the callback's counter at 0.\<close>

definition freshWalk :: "nat walk" where
  "freshWalk = \<lparr>unfinished = False, events = [], cbState = 0\<rparr>"






section \<open>Properties of the easing converters\<close>

lemma linearSpeed_pos: "\<not> \<bar>vc\<bar> < EPSILON \<Longrightarrow> \<not> d < EPSILON \<Longrightarrow> 0 < linearSpeed_of vc d"
  by (auto simp: linearSpeed_of_def EPSILON_def)

text \<open>
  The loop of \<open>findBestDimension\<close> ends on a change at least as large, in absolute
  value, as every change it has seen, and on the first index that reaches it.
\<close>

lemma bestDimLoop_max:
  "bestDimLoop ps i best = (d, vc) \<Longrightarrow>
     \<bar>snd best\<bar> \<le> \<bar>vc\<bar> \<and> (\<forall>k < length ps. \<bar>snd (ps ! k) - fst (ps ! k)\<bar> \<le> \<bar>vc\<bar>)"
proof (induction ps i best rule: bestDimLoop.induct)
  case (1 i best)
  then show ?case by simp
next
  case (2 s e rest i bestDim bestChange)
  show ?case
  proof (cases "\<bar>e - s\<bar> > \<bar>bestChange\<bar>")
    case True
    with 2 have ih: "\<bar>e - s\<bar> \<le> \<bar>vc\<bar> \<and> (\<forall>k < length rest. \<bar>snd (rest ! k) - fst (rest ! k)\<bar> \<le> \<bar>vc\<bar>)"
      by simp
    show ?thesis
    proof (intro conjI allI impI)
      show "\<bar>snd (bestDim, bestChange)\<bar> \<le> \<bar>vc\<bar>" using True ih by simp
    next
      fix k assume "k < length ((s, e) # rest)"
      then show "\<bar>snd (((s, e) # rest) ! k) - fst (((s, e) # rest) ! k)\<bar> \<le> \<bar>vc\<bar>"
        using ih by (cases k) auto
    qed
  next
    case False
    with 2 have ih: "\<bar>bestChange\<bar> \<le> \<bar>vc\<bar> \<and> (\<forall>k < length rest. \<bar>snd (rest ! k) - fst (rest ! k)\<bar> \<le> \<bar>vc\<bar>)"
      by simp
    show ?thesis
    proof (intro conjI allI impI)
      show "\<bar>snd (bestDim, bestChange)\<bar> \<le> \<bar>vc\<bar>" using ih by simp
    next
      fix k assume "k < length ((s, e) # rest)"
      then show "\<bar>snd (((s, e) # rest) ! k) - fst (((s, e) # rest) ! k)\<bar> \<le> \<bar>vc\<bar>"
        using ih False by (cases k) auto
    qed
  qed
qed

lemma bestDimLoop_index:
  "bestDimLoop ps i best = (d, vc) \<Longrightarrow>
     (d, vc) = best \<or>
     (i \<le> d \<and> d < i + length ps \<and> vc = snd (ps ! (d - i)) - fst (ps ! (d - i)) \<and>
      \<bar>snd best\<bar> < \<bar>vc\<bar> \<and> (\<forall>k < d - i. \<bar>snd (ps ! k) - fst (ps ! k)\<bar> < \<bar>vc\<bar>))"
proof (induction ps i best rule: bestDimLoop.induct)
  case (1 i best)
  then show ?case by simp
next
  case (2 s e rest i bestDim bestChange)
  show ?case
  proof (cases "\<bar>e - s\<bar> > \<bar>bestChange\<bar>")
    case True
    with 2 have run: "bestDimLoop rest (Suc i) (i, e - s) = (d, vc)" by simp
    from 2(1)[OF True run]
    consider (same) "(d, vc) = (i, e - s)"
      | (later) "Suc i \<le> d" "d < Suc i + length rest" "vc = snd (rest ! (d - Suc i)) - fst (rest ! (d - Suc i))"
          "\<bar>e - s\<bar> < \<bar>vc\<bar>" "\<forall>k < d - Suc i. \<bar>snd (rest ! k) - fst (rest ! k)\<bar> < \<bar>vc\<bar>"
      by auto
    then show ?thesis
    proof cases
      case same
      then show ?thesis using True by auto
    next
      case later
      have idx: "d - i = Suc (d - Suc i)" using later(1) by simp
      have "\<forall>k < d - i. \<bar>snd (((s, e) # rest) ! k) - fst (((s, e) # rest) ! k)\<bar> < \<bar>vc\<bar>"
      proof (intro allI impI)
        fix k assume k: "k < d - i"
        show "\<bar>snd (((s, e) # rest) ! k) - fst (((s, e) # rest) ! k)\<bar> < \<bar>vc\<bar>"
        proof (cases k)
          case 0
          then show ?thesis using later(4) by simp
        next
          case (Suc j)
          then have "j < d - Suc i" using k by simp
          then show ?thesis using later(5) Suc by simp
        qed
      qed
      then show ?thesis using later True idx by auto
    qed
  next
    case False
    with 2 have run: "bestDimLoop rest (Suc i) (bestDim, bestChange) = (d, vc)" by simp
    from 2(2)[OF False run]
    consider (same) "(d, vc) = (bestDim, bestChange)"
      | (later) "Suc i \<le> d" "d < Suc i + length rest" "vc = snd (rest ! (d - Suc i)) - fst (rest ! (d - Suc i))"
          "\<bar>bestChange\<bar> < \<bar>vc\<bar>" "\<forall>k < d - Suc i. \<bar>snd (rest ! k) - fst (rest ! k)\<bar> < \<bar>vc\<bar>"
      by auto
    then show ?thesis
    proof cases
      case same
      then show ?thesis by auto
    next
      case later
      have idx: "d - i = Suc (d - Suc i)" using later(1) by simp
      have "\<forall>k < d - i. \<bar>snd (((s, e) # rest) ! k) - fst (((s, e) # rest) ! k)\<bar> < \<bar>vc\<bar>"
      proof (intro allI impI)
        fix k assume k: "k < d - i"
        show "\<bar>snd (((s, e) # rest) ! k) - fst (((s, e) # rest) ! k)\<bar> < \<bar>vc\<bar>"
        proof (cases k)
          case 0
          then show ?thesis using later(4) False by simp
        next
          case (Suc j)
          then have "j < d - Suc i" using k by simp
          then show ?thesis using later(5) Suc by simp
        qed
      qed
      then show ?thesis using later idx by auto
    qed
  qed
qed

lemma findBestDimension_arrays:
  assumes n: "0 < min (length s) (length e)"
    and r: "findBestDimension (Arr s) (Arr e) = (d, vc)"
  shows "d < min (length s) (length e) \<and> vc = e ! d - s ! d \<and>
         (\<forall>k < min (length s) (length e). \<bar>e ! k - s ! k\<bar> \<le> \<bar>vc\<bar>) \<and>
         (\<forall>k < d. \<bar>e ! k - s ! k\<bar> < \<bar>vc\<bar>)"
proof -
  from r have run: "bestDimLoop (zip s e) 0 (0, 0) = (d, vc)" by simp
  have mx: "\<forall>k < min (length s) (length e). \<bar>e ! k - s ! k\<bar> \<le> \<bar>vc\<bar>"
    using bestDimLoop_max[OF run] by auto
  from bestDimLoop_index[OF run]
  consider (init) "(d, vc) = (0, 0)"
    | (found) "d < length (zip s e)" "vc = snd (zip s e ! d) - fst (zip s e ! d)"
        "\<forall>k < d. \<bar>snd (zip s e ! k) - fst (zip s e ! k)\<bar> < \<bar>vc\<bar>"
    by auto
  then show ?thesis
  proof cases
    case init
    then have "\<bar>e ! 0 - s ! 0\<bar> \<le> 0" using mx n by auto
    then show ?thesis using init mx n by auto
  next
    case found
    then show ?thesis using mx by auto
  qed
qed


lemma conv_guard_split:
  "convertEasingWithValues outEase inEaseNext duration startValue endValue =
     (if \<bar>snd (findBestDimension startValue endValue)\<bar> < EPSILON \<or> duration < EPSILON
      then Inr identity_bezier
      else (case (js_index outEase (min (int (fst (findBestDimension startValue endValue)))
                                        (int (length outEase) - 1)),
                  js_index inEaseNext (min (int (fst (findBestDimension startValue endValue)))
                                        (int (length inEaseNext) - 1))) of
              (Some oe, Some ie) \<Rightarrow>
                Inr (easeToBezier oe ie
                       (linearSpeed_of (snd (findBestDimension startValue endValue)) duration))
            | _ \<Rightarrow> Inl TypeError))"
  by (simp add: convertEasingWithValues_def Let_def)

lemma js_index_clamped:
  "xs \<noteq> [] \<Longrightarrow> js_index xs (min (int d) (int (length xs) - 1)) = Some (xs ! min d (length xs - 1))"
proof -
  assume ne: "xs \<noteq> []"
  obtain m where m: "length xs = Suc m" using ne by (cases xs) auto
  have "min (int d) (int (length xs) - 1) = int (min d m)" using m by (simp add: min_def)
  moreover have "min d m < length xs" using m by simp
  ultimately show ?thesis using m by (simp add: js_index_def)
qed

text \<open>
  The dimension-aware copy on array values with at least one common dimension:
  \<open>findBestDimension\<close> returns the first dimension \<open>d\<close> whose absolute change is the
  largest, together with that dimension's signed change. When that change and the segment
  duration are both at least the epsilon and both ease arrays are non-empty, the result is
  the conversion of the ease entries at index \<open>min d (length - 1)\<close> of each ease array,
  with the linear speed of dimension \<open>d\<close>. For a two-dimensional value whose dimension 0
  is constant and whose dimension 1 changes by at least the epsilon, \<open>d\<close> is 1.
\<close>

lemma dominant_dimension:
  assumes n: "0 < min (length s) (length e)"
    and r: "findBestDimension (Arr s) (Arr e) = (d, vc)"
  shows "d < min (length s) (length e) \<and> vc = e ! d - s ! d \<and>
         (\<forall>k < min (length s) (length e). \<bar>e ! k - s ! k\<bar> \<le> \<bar>vc\<bar>) \<and>
         (\<forall>k < d. \<bar>e ! k - s ! k\<bar> < \<bar>vc\<bar>) \<and>
         (EPSILON \<le> \<bar>vc\<bar> \<and> EPSILON \<le> duration \<and> outEase \<noteq> [] \<and> inEaseNext \<noteq> [] \<longrightarrow>
            convertEasingWithValues outEase inEaseNext duration (Arr s) (Arr e) =
              Inr (easeToBezier (outEase ! min d (length outEase - 1))
                     (inEaseNext ! min d (length inEaseNext - 1))
                     \<bar>(e ! d - s ! d) / duration\<bar>)) \<and>
         (length s = 2 \<and> length e = 2 \<and> e ! 0 = s ! 0 \<and> EPSILON \<le> \<bar>e ! 1 - s ! 1\<bar> \<longrightarrow> d = 1)"
proof -
  note fb = findBestDimension_arrays[OF n r]
  have conv: "convertEasingWithValues outEase inEaseNext duration (Arr s) (Arr e) =
              Inr (easeToBezier (outEase ! min d (length outEase - 1))
                     (inEaseNext ! min d (length inEaseNext - 1))
                     \<bar>(e ! d - s ! d) / duration\<bar>)"
    if "EPSILON \<le> \<bar>vc\<bar>" "EPSILON \<le> duration" "outEase \<noteq> []" "inEaseNext \<noteq> []"
    using that fb r
    by (simp add: conv_guard_split js_index_clamped linearSpeed_of_def del: findBestDimension.simps)
  have dim: "d = 1" if two: "length s = 2" "length e = 2" and c0: "e ! 0 = s ! 0"
    and c1: "EPSILON \<le> \<bar>e ! 1 - s ! 1\<bar>"
  proof (rule ccontr)
    assume "d \<noteq> 1"
    with fb two have d0: "d = 0" by auto
    with fb c0 have "vc = 0" by simp
    moreover from fb two have "\<bar>e ! 1 - s ! 1\<bar> \<le> \<bar>vc\<bar>" by auto
    ultimately show False using c1 by (simp add: EPSILON_def)
  qed
  show ?thesis using fb conv dim by blast
qed



text \<open>
  The copy under packages/ae-extendscript on the same values: the change it uses is that
  of dimension 0 and the ease entries it converts are those at index 0, whatever the
  other dimensions do.
\<close>

lemma firstDimChange_arrays:
  "0 < min (length s) (length e) \<Longrightarrow> firstDimChange (Arr s) (Arr e) = Some (e ! 0 - s ! 0)"
  by (cases s; cases e) (simp_all add: js_index_def)

lemma first_dimension_conversion:
  assumes n: "0 < min (length s) (length e)"
  shows "(\<bar>e ! 0 - s ! 0\<bar> < EPSILON \<longrightarrow>
            convertEasingWithValues0 outEase inEaseNext duration (Arr s) (Arr e) =
              Inr identity_bezier) \<and>
         (EPSILON \<le> \<bar>e ! 0 - s ! 0\<bar> \<and> EPSILON \<le> duration \<and> outEase \<noteq> [] \<and> inEaseNext \<noteq> [] \<longrightarrow>
            convertEasingWithValues0 outEase inEaseNext duration (Arr s) (Arr e) =
              Inr (easeToBezier (outEase ! 0) (inEaseNext ! 0) \<bar>(e ! 0 - s ! 0) / duration\<bar>))"
proof -
  have idx: "js_index xs 0 = Some (xs ! 0)" if "xs \<noteq> []" for xs :: "ease list"
    using that by (simp add: js_index_def)
  show ?thesis
    using firstDimChange_arrays[OF n]
    by (auto simp: convertEasingWithValues0_def idx linearSpeed_of_def simp del: firstDimChange.simps)
qed

text \<open>
  Claim C1, as the two copies of \<open>convertEasingWithValues\<close> behave on array values with
  at least one common dimension. \<open>d\<close> is the first dimension whose absolute change is the
  largest and \<open>vc\<close> its signed change. The dimension-aware copy converts the ease entries
  at index \<open>min d (length - 1)\<close> with the linear speed of dimension \<open>d\<close>, when that change
  and the duration are at least the epsilon and the ease arrays are non-empty; for a
  two-dimensional value whose dimension 0 is constant and whose dimension 1 changes by at
  least the epsilon, \<open>d\<close> is 1. The copy under packages/ae-extendscript does not select a
  dimension: it returns the identity fallback whenever dimension 0 changes by less than
  the epsilon, whatever the change of the other dimensions, and otherwise converts the
  ease entries at index 0 with the linear speed of dimension 0.
\<close>

theorem C1_dimension_used:
  assumes n: "0 < min (length s) (length e)"
    and r: "findBestDimension (Arr s) (Arr e) = (d, vc)"
  shows "d < min (length s) (length e) \<and> vc = e ! d - s ! d \<and>
         (\<forall>k < min (length s) (length e). \<bar>e ! k - s ! k\<bar> \<le> \<bar>vc\<bar>) \<and>
         (\<forall>k < d. \<bar>e ! k - s ! k\<bar> < \<bar>vc\<bar>) \<and>
         (EPSILON \<le> \<bar>vc\<bar> \<and> EPSILON \<le> duration \<and> outEase \<noteq> [] \<and> inEaseNext \<noteq> [] \<longrightarrow>
            convertEasingWithValues outEase inEaseNext duration (Arr s) (Arr e) =
              Inr (easeToBezier (outEase ! min d (length outEase - 1))
                     (inEaseNext ! min d (length inEaseNext - 1))
                     \<bar>(e ! d - s ! d) / duration\<bar>)) \<and>
         (length s = 2 \<and> length e = 2 \<and> e ! 0 = s ! 0 \<and> EPSILON \<le> \<bar>e ! 1 - s ! 1\<bar> \<longrightarrow> d = 1) \<and>
         (\<bar>e ! 0 - s ! 0\<bar> < EPSILON \<longrightarrow>
            convertEasingWithValues0 outEase inEaseNext duration (Arr s) (Arr e) =
              Inr identity_bezier) \<and>
         (EPSILON \<le> \<bar>e ! 0 - s ! 0\<bar> \<and> EPSILON \<le> duration \<and> outEase \<noteq> [] \<and> inEaseNext \<noteq> [] \<longrightarrow>
            convertEasingWithValues0 outEase inEaseNext duration (Arr s) (Arr e) =
              Inr (easeToBezier (outEase ! 0) (inEaseNext ! 0) \<bar>(e ! 0 - s ! 0) / duration\<bar>))"
  using dominant_dimension [OF n r, of duration outEase inEaseNext]
    first_dimension_conversion [OF n, of outEase inEaseNext duration]
  by blast

subsection \<open>Range of the x coordinates\<close>

lemma js_round_bounds: "0 \<le> v \<Longrightarrow> v \<le> 10000 \<Longrightarrow> 0 \<le> js_round v \<and> js_round v \<le> 10000"
  unfolding js_round_def by (simp add: floor_le_iff le_floor_iff)

lemma round4_clamp01: "0 \<le> round4 (clamp01 v) \<and> round4 (clamp01 v) \<le> 1"
proof -
  have c: "0 \<le> clamp01 v * 10000" "clamp01 v * 10000 \<le> 10000"
    by (simp_all add: clamp01_def)
  from js_round_bounds[OF c] show ?thesis
    by (simp add: round4_def)
qed

lemma easeToBezier_x: "0 \<le> x1 (easeToBezier oe ie ls) \<and> x1 (easeToBezier oe ie ls) \<le> 1 \<and>
   0 \<le> x2 (easeToBezier oe ie ls) \<and> x2 (easeToBezier oe ie ls) \<le> 1"
  by (simp add: easeToBezier_def Let_def round4_clamp01)

lemma easeToBezierNaN_x: "0 \<le> x1 (easeToBezierNaN oe ie) \<and> x1 (easeToBezierNaN oe ie) \<le> 1 \<and>
   0 \<le> x2 (easeToBezierNaN oe ie) \<and> x2 (easeToBezierNaN oe ie) \<le> 1"
  by (simp add: easeToBezierNaN_def Let_def round4_clamp01)

lemma identity_x: "0 \<le> x1 identity_bezier \<and> x1 identity_bezier \<le> 1 \<and>
   0 \<le> x2 identity_bezier \<and> x2 identity_bezier \<le> 1"
  by (simp add: identity_bezier_def)

lemma conv_x: "convertEasingWithValues outEase inEaseNext duration startValue endValue = Inr b \<Longrightarrow>
   0 \<le> x1 b \<and> x1 b \<le> 1 \<and> 0 \<le> x2 b \<and> x2 b \<le> 1"
  using easeToBezier_x identity_x
  by (auto simp: convertEasingWithValues_def Let_def split: if_splits option.splits prod.splits)

lemma conv0_x: "convertEasingWithValues0 outEase inEaseNext duration startValue endValue = Inr b \<Longrightarrow>
   0 \<le> x1 b \<and> x1 b \<le> 1 \<and> 0 \<le> x2 b \<and> x2 b \<le> 1"
  using easeToBezier_x easeToBezierNaN_x identity_x
  by (auto simp: convertEasingWithValues0_def Let_def split: if_splits option.splits prod.splits)

lemma convSimple_x: "convertEasingToCubicBezier outEase inEaseNext duration = Inr b \<Longrightarrow>
   0 \<le> x1 b \<and> x1 b \<le> 1 \<and> 0 \<le> x2 b \<and> x2 b \<le> 1"
  using round4_clamp01
  by (auto simp: convertEasingToCubicBezier_def Let_def split: if_splits option.splits prod.splits)

text \<open>The unfoldings that evaluate a converter on concrete inputs.\<close>

lemmas eval_easing = convertEasingWithValues_def convertEasingWithValues0_def
  convertEasingToCubicBezier_def Let_def EPSILON_def js_index_def easeToBezier_def
  linearSpeed_of_def round4_def js_round_def clamp01_def identity_bezier_def

lemma overshoot_conv: "convertEasingWithValues [\<lparr>speed = 300, influence = 50\<rparr>] [\<lparr>speed = 300, influence = 50\<rparr>] 1 (Num 0) (Num 100)
   = Inr \<lparr>x1 = 1/2, y1 = Some (3/2), x2 = 1/2, y2 = Some (-1/2)\<rparr>"
  by (simp add: eval_easing)

lemma overshoot_conv0: "convertEasingWithValues0 [\<lparr>speed = 300, influence = 50\<rparr>] [\<lparr>speed = 300, influence = 50\<rparr>] 1 (Num 0) (Num 100)
   = Inr \<lparr>x1 = 1/2, y1 = Some (3/2), x2 = 1/2, y2 = Some (-1/2)\<rparr>"
  by (simp add: eval_easing)

lemma overshoot_simple: "convertEasingToCubicBezier [\<lparr>speed = 1, influence = 200\<rparr>] [\<lparr>speed = 1, influence = 200\<rparr>] 1
   = Inr \<lparr>x1 = 1, y1 = Some 2, x2 = 0, y2 = Some (-1)\<rparr>"
  by (simp add: eval_easing)

text \<open>
  Claim C6. Whatever the inputs, every bezier returned by the dimension-aware
  \<open>convertEasingWithValues\<close>, by the first-dimension copy and by
  \<open>convertEasingToCubicBezier\<close> has \<open>x1\<close> and \<open>x2\<close> between 0 and 1. The y
  coordinates are not clamped: each converter returns, on the inputs shown, a \<open>y1\<close> above
  1 and a \<open>y2\<close> below 0.
\<close>

theorem C6_x_clamped_y_free:
  "(\<forall>b. convertEasingWithValues outEase inEaseNext duration startValue endValue = Inr b \<longrightarrow>
        0 \<le> x1 b \<and> x1 b \<le> 1 \<and> 0 \<le> x2 b \<and> x2 b \<le> 1) \<and>
   (\<forall>b. convertEasingWithValues0 outEase inEaseNext duration startValue endValue = Inr b \<longrightarrow>
        0 \<le> x1 b \<and> x1 b \<le> 1 \<and> 0 \<le> x2 b \<and> x2 b \<le> 1) \<and>
   (\<forall>b. convertEasingToCubicBezier outEase inEaseNext duration = Inr b \<longrightarrow>
        0 \<le> x1 b \<and> x1 b \<le> 1 \<and> 0 \<le> x2 b \<and> x2 b \<le> 1) \<and>
   convertEasingWithValues [\<lparr>speed = 300, influence = 50\<rparr>] [\<lparr>speed = 300, influence = 50\<rparr>] 1
       (Num 0) (Num 100) = Inr \<lparr>x1 = 1/2, y1 = Some (3/2), x2 = 1/2, y2 = Some (-1/2)\<rparr> \<and>
   convertEasingWithValues0 [\<lparr>speed = 300, influence = 50\<rparr>] [\<lparr>speed = 300, influence = 50\<rparr>] 1
       (Num 0) (Num 100) = Inr \<lparr>x1 = 1/2, y1 = Some (3/2), x2 = 1/2, y2 = Some (-1/2)\<rparr> \<and>
   convertEasingToCubicBezier [\<lparr>speed = 1, influence = 200\<rparr>] [\<lparr>speed = 1, influence = 200\<rparr>] 1
       = Inr \<lparr>x1 = 1, y1 = Some 2, x2 = 0, y2 = Some (-1)\<rparr>"
  using conv_x conv0_x convSimple_x overshoot_conv overshoot_conv0 overshoot_simple by blast

text \<open>C6 at a negative influence and an influence above 100.\<close>

theorem C6_witness:
  "(\<exists>b. convertEasingWithValues [\<lparr>speed = 5, influence = -50\<rparr>] [\<lparr>speed = 5, influence = 250\<rparr>] 2
          (Num 0) (Num 10) = Inr b \<and> x1 b = 0 \<and> x2 b = 0) \<and>
   (\<exists>b. convertEasingWithValues0 [\<lparr>speed = 5, influence = -50\<rparr>] [\<lparr>speed = 5, influence = 250\<rparr>] 2
          (Num 0) (Num 10) = Inr b \<and> 0 \<le> x1 b \<and> x1 b \<le> 1 \<and> 0 \<le> x2 b \<and> x2 b \<le> 1) \<and>
   (\<exists>b. convertEasingToCubicBezier [\<lparr>speed = 5, influence = -50\<rparr>] [\<lparr>speed = 5, influence = 250\<rparr>] 2
          = Inr b \<and> 0 \<le> x1 b \<and> x1 b \<le> 1 \<and> 0 \<le> x2 b \<and> x2 b \<le> 1)"
  using C6_x_clamped_y_free [of "[\<lparr>speed = 5, influence = -50\<rparr>]" "[\<lparr>speed = 5, influence = 250\<rparr>]" 2
          "Num 0" "Num 10"]
  by (simp add: eval_easing)

subsection \<open>The guard against a degenerate segment\<close>

text \<open>
  The change of the first-dimension copy is NaN exactly when both values are arrays and
  one of them is empty.
\<close>

lemma firstDimChange_NaN:
  "firstDimChange startValue endValue = None \<longleftrightarrow>
     (\<exists>s e. startValue = Arr s \<and> endValue = Arr e \<and> (s = [] \<or> e = []))"
proof (cases startValue)
  case (Arr s)
  show ?thesis
  proof (cases endValue)
    case (Arr e)
    show ?thesis using \<open>startValue = Arr s\<close> Arr
      by (cases s; cases e) (simp_all add: js_index_def)
  qed (simp_all add: Arr)
qed (cases endValue; simp)+

text \<open>
  Claim C7. In both copies of \<open>convertEasingWithValues\<close>: when the absolute value change
  the copy selects is below the epsilon 0.0001, or the duration is, the result is exactly
  the bezier (0, 0, 1, 1). In every other case \<open>linearSpeed = |valueChange / duration|\<close> is
  positive, and the result is either the \<open>TypeError\<close> of reading an entry of an empty
  ease array, or the curve with \<open>y1 = x1 * (|outSpeed| / linearSpeed)\<close> and
  \<open>y2 = 1 - inInfluence * (|inSpeed| / linearSpeed)\<close>, rounded. The first-dimension copy
  has one more case: with an empty value array its change is NaN, which no comparison
  finds below the epsilon; then a duration below the epsilon still gives (0, 0, 1, 1), and
  otherwise \<open>linearSpeed\<close> is NaN, not zero, and both y coordinates are NaN.
\<close>

theorem C7_guard:
  "EPSILON = 1 / 10000 \<and>
   (\<bar>snd (findBestDimension startValue endValue)\<bar> < EPSILON \<or> duration < EPSILON \<longrightarrow>
      convertEasingWithValues outEase inEaseNext duration startValue endValue =
        Inr \<lparr>x1 = 0, y1 = Some 0, x2 = 1, y2 = Some 1\<rparr>) \<and>
   (\<not> (\<bar>snd (findBestDimension startValue endValue)\<bar> < EPSILON \<or> duration < EPSILON) \<longrightarrow>
      0 < \<bar>snd (findBestDimension startValue endValue) / duration\<bar> \<and>
      convertEasingWithValues outEase inEaseNext duration startValue endValue =
        (case (js_index outEase (min (int (fst (findBestDimension startValue endValue)))
                                     (int (length outEase) - 1)),
               js_index inEaseNext (min (int (fst (findBestDimension startValue endValue)))
                                     (int (length inEaseNext) - 1))) of
           (Some oe, Some ie) \<Rightarrow>
             Inr \<lparr>x1 = round4 (clamp01 (influence oe / 100)),
                  y1 = Some (round4 (influence oe / 100 *
                         (\<bar>speed oe\<bar> / \<bar>snd (findBestDimension startValue endValue) / duration\<bar>))),
                  x2 = round4 (clamp01 (1 - influence ie / 100)),
                  y2 = Some (round4 (1 - influence ie / 100 *
                         (\<bar>speed ie\<bar> / \<bar>snd (findBestDimension startValue endValue) / duration\<bar>)))\<rparr>
         | _ \<Rightarrow> Inl TypeError)) \<and>
   (\<forall>vc. firstDimChange startValue endValue = Some vc \<longrightarrow>
      (\<bar>vc\<bar> < EPSILON \<or> duration < EPSILON \<longrightarrow>
         convertEasingWithValues0 outEase inEaseNext duration startValue endValue =
           Inr \<lparr>x1 = 0, y1 = Some 0, x2 = 1, y2 = Some 1\<rparr>) \<and>
      (\<not> (\<bar>vc\<bar> < EPSILON \<or> duration < EPSILON) \<longrightarrow>
         0 < \<bar>vc / duration\<bar> \<and>
         convertEasingWithValues0 outEase inEaseNext duration startValue endValue =
           (case (js_index outEase 0, js_index inEaseNext 0) of
              (Some oe, Some ie) \<Rightarrow>
                Inr \<lparr>x1 = round4 (clamp01 (influence oe / 100)),
                     y1 = Some (round4 (influence oe / 100 * (\<bar>speed oe\<bar> / \<bar>vc / duration\<bar>))),
                     x2 = round4 (clamp01 (1 - influence ie / 100)),
                     y2 = Some (round4 (1 - influence ie / 100 * (\<bar>speed ie\<bar> / \<bar>vc / duration\<bar>)))\<rparr>
            | _ \<Rightarrow> Inl TypeError))) \<and>
   (firstDimChange startValue endValue = None \<longrightarrow>
      (duration < EPSILON \<longrightarrow>
         convertEasingWithValues0 outEase inEaseNext duration startValue endValue =
           Inr \<lparr>x1 = 0, y1 = Some 0, x2 = 1, y2 = Some 1\<rparr>) \<and>
      (\<not> duration < EPSILON \<longrightarrow>
         convertEasingWithValues0 outEase inEaseNext duration startValue endValue =
           (case (js_index outEase 0, js_index inEaseNext 0) of
              (Some oe, Some ie) \<Rightarrow>
                Inr \<lparr>x1 = round4 (clamp01 (influence oe / 100)), y1 = None,
                     x2 = round4 (clamp01 (1 - influence ie / 100)), y2 = None\<rparr>
            | _ \<Rightarrow> Inl TypeError))) \<and>
   (firstDimChange startValue endValue = None \<longleftrightarrow>
      (\<exists>s e. startValue = Arr s \<and> endValue = Arr e \<and> (s = [] \<or> e = [])))"
proof (intro conjI impI allI)
  show "EPSILON = 1 / 10000" by (simp add: EPSILON_def)
next
  show "convertEasingWithValues outEase inEaseNext duration startValue endValue =
          Inr \<lparr>x1 = 0, y1 = Some 0, x2 = 1, y2 = Some 1\<rparr>"
    if "\<bar>snd (findBestDimension startValue endValue)\<bar> < EPSILON \<or> duration < EPSILON"
    using that by (simp add: conv_guard_split identity_bezier_def)
next
  assume g: "\<not> (\<bar>snd (findBestDimension startValue endValue)\<bar> < EPSILON \<or> duration < EPSILON)"
  then show "0 < \<bar>snd (findBestDimension startValue endValue) / duration\<bar>"
    using linearSpeed_pos[of "snd (findBestDimension startValue endValue)" duration]
    by (simp add: linearSpeed_of_def)
  from g show "convertEasingWithValues outEase inEaseNext duration startValue endValue =
        (case (js_index outEase (min (int (fst (findBestDimension startValue endValue)))
                                     (int (length outEase) - 1)),
               js_index inEaseNext (min (int (fst (findBestDimension startValue endValue)))
                                     (int (length inEaseNext) - 1))) of
           (Some oe, Some ie) \<Rightarrow>
             Inr \<lparr>x1 = round4 (clamp01 (influence oe / 100)),
                  y1 = Some (round4 (influence oe / 100 *
                         (\<bar>speed oe\<bar> / \<bar>snd (findBestDimension startValue endValue) / duration\<bar>))),
                  x2 = round4 (clamp01 (1 - influence ie / 100)),
                  y2 = Some (round4 (1 - influence ie / 100 *
                         (\<bar>speed ie\<bar> / \<bar>snd (findBestDimension startValue endValue) / duration\<bar>)))\<rparr>
         | _ \<Rightarrow> Inl TypeError)"
    by (simp add: conv_guard_split easeToBezier_def linearSpeed_of_def Let_def
        split: option.splits)
next
  fix vc assume v: "firstDimChange startValue endValue = Some vc"
  show "convertEasingWithValues0 outEase inEaseNext duration startValue endValue =
          Inr \<lparr>x1 = 0, y1 = Some 0, x2 = 1, y2 = Some 1\<rparr>"
    if "\<bar>vc\<bar> < EPSILON \<or> duration < EPSILON"
    using that v by (simp add: convertEasingWithValues0_def identity_bezier_def)
  assume g: "\<not> (\<bar>vc\<bar> < EPSILON \<or> duration < EPSILON)"
  then show "0 < \<bar>vc / duration\<bar>"
    using linearSpeed_pos[of vc duration] by (simp add: linearSpeed_of_def)
  from g v show "convertEasingWithValues0 outEase inEaseNext duration startValue endValue =
           (case (js_index outEase 0, js_index inEaseNext 0) of
              (Some oe, Some ie) \<Rightarrow>
                Inr \<lparr>x1 = round4 (clamp01 (influence oe / 100)),
                     y1 = Some (round4 (influence oe / 100 * (\<bar>speed oe\<bar> / \<bar>vc / duration\<bar>))),
                     x2 = round4 (clamp01 (1 - influence ie / 100)),
                     y2 = Some (round4 (1 - influence ie / 100 * (\<bar>speed ie\<bar> / \<bar>vc / duration\<bar>)))\<rparr>
            | _ \<Rightarrow> Inl TypeError)"
    by (simp add: convertEasingWithValues0_def easeToBezier_def linearSpeed_of_def Let_def
        split: option.splits)
next
  assume nan: "firstDimChange startValue endValue = None"
  show "convertEasingWithValues0 outEase inEaseNext duration startValue endValue =
          Inr \<lparr>x1 = 0, y1 = Some 0, x2 = 1, y2 = Some 1\<rparr>"
    if "duration < EPSILON"
    using that nan by (simp add: convertEasingWithValues0_def identity_bezier_def)
  show "convertEasingWithValues0 outEase inEaseNext duration startValue endValue =
           (case (js_index outEase 0, js_index inEaseNext 0) of
              (Some oe, Some ie) \<Rightarrow>
                Inr \<lparr>x1 = round4 (clamp01 (influence oe / 100)), y1 = None,
                     x2 = round4 (clamp01 (1 - influence ie / 100)), y2 = None\<rparr>
            | _ \<Rightarrow> Inl TypeError)"
    if "\<not> duration < EPSILON"
    using that nan
    by (simp add: convertEasingWithValues0_def easeToBezierNaN_def Let_def split: option.splits)
next
  show "firstDimChange startValue endValue = None \<longleftrightarrow>
      (\<exists>s e. startValue = Arr s \<and> endValue = Arr e \<and> (s = [] \<or> e = []))"
    by (rule firstDimChange_NaN)
qed


subsection \<open>Concrete segments\<close>

text \<open>
  A position whose x stays at 0 and whose y moves by 100 in one second: the copy under
  packages/ae-extendscript returns the identity, where the dimension-aware copy returns
  an eased curve.
\<close>

lemma first_dimension_copy_linear:
  "convertEasingWithValues0
     [\<lparr>speed = 0, influence = 100 / 3\<rparr>, \<lparr>speed = 0, influence = 100 / 3\<rparr>]
     [\<lparr>speed = 0, influence = 100 / 3\<rparr>, \<lparr>speed = 0, influence = 100 / 3\<rparr>]
     1 (Arr [0, 0]) (Arr [0, 100]) = Inr \<lparr>x1 = 0, y1 = Some 0, x2 = 1, y2 = Some 1\<rparr> \<and>
   convertEasingWithValues
     [\<lparr>speed = 0, influence = 100 / 3\<rparr>, \<lparr>speed = 0, influence = 100 / 3\<rparr>]
     [\<lparr>speed = 0, influence = 100 / 3\<rparr>, \<lparr>speed = 0, influence = 100 / 3\<rparr>]
     1 (Arr [0, 0]) (Arr [0, 100]) =
     Inr \<lparr>x1 = 3333 / 10000, y1 = Some 0, x2 = 6667 / 10000, y2 = Some 1\<rparr>"
  by (simp add: eval_easing)

text \<open>
  C1 at the same position, with ease entries that differ between the dimensions, and at a
  position whose x moves by 1 while its y moves by 100: the dimension-aware copy converts
  the entries of dimension 1, the other copy gives the identity in the first case and
  converts the entries of dimension 0 in the second.
\<close>

theorem C1_witness:
  "0 < min (length [0, 0 :: real]) (length [0, 100 :: real]) \<and>
   findBestDimension (Arr [0, 0]) (Arr [0, 100]) = (1, 100) \<and>
   convertEasingWithValues
     [\<lparr>speed = 7, influence = 10\<rparr>, \<lparr>speed = 0, influence = 100 / 3\<rparr>]
     [\<lparr>speed = 7, influence = 10\<rparr>, \<lparr>speed = 0, influence = 100 / 3\<rparr>]
     1 (Arr [0, 0]) (Arr [0, 100]) =
     Inr \<lparr>x1 = 3333 / 10000, y1 = Some 0, x2 = 6667 / 10000, y2 = Some 1\<rparr> \<and>
   convertEasingWithValues0
     [\<lparr>speed = 7, influence = 10\<rparr>, \<lparr>speed = 0, influence = 100 / 3\<rparr>]
     [\<lparr>speed = 7, influence = 10\<rparr>, \<lparr>speed = 0, influence = 100 / 3\<rparr>]
     1 (Arr [0, 0]) (Arr [0, 100]) =
     Inr \<lparr>x1 = 0, y1 = Some 0, x2 = 1, y2 = Some 1\<rparr> \<and>
   findBestDimension (Arr [0, 0]) (Arr [1, 100]) = (1, 100) \<and>
   convertEasingWithValues
     [\<lparr>speed = 7, influence = 10\<rparr>, \<lparr>speed = 0, influence = 100 / 3\<rparr>]
     [\<lparr>speed = 7, influence = 10\<rparr>, \<lparr>speed = 0, influence = 100 / 3\<rparr>]
     1 (Arr [0, 0]) (Arr [1, 100]) =
     Inr \<lparr>x1 = 3333 / 10000, y1 = Some 0, x2 = 6667 / 10000, y2 = Some 1\<rparr> \<and>
   convertEasingWithValues0
     [\<lparr>speed = 7, influence = 10\<rparr>, \<lparr>speed = 0, influence = 100 / 3\<rparr>]
     [\<lparr>speed = 7, influence = 10\<rparr>, \<lparr>speed = 0, influence = 100 / 3\<rparr>]
     1 (Arr [0, 0]) (Arr [1, 100]) =
     Inr \<lparr>x1 = 1 / 10, y1 = Some (7 / 10), x2 = 9 / 10, y2 = Some (3 / 10)\<rparr>"
proof -
  have n: "0 < min (length [0, 0 :: real]) (length [0, 100 :: real])" by simp
  have r: "findBestDimension (Arr [0, 0]) (Arr [0, 100]) = (1, 100)" by simp
  have n': "0 < min (length [0, 0 :: real]) (length [1, 100 :: real])" by simp
  have r': "findBestDimension (Arr [0, 0]) (Arr [1, 100]) = (1, 100)" by simp
  show ?thesis
    using n r r'
      C1_dimension_used [OF n r, of 1
        "[\<lparr>speed = 7, influence = 10\<rparr>, \<lparr>speed = 0, influence = 100 / 3\<rparr>]"
        "[\<lparr>speed = 7, influence = 10\<rparr>, \<lparr>speed = 0, influence = 100 / 3\<rparr>]"]
      C1_dimension_used [OF n' r', of 1
        "[\<lparr>speed = 7, influence = 10\<rparr>, \<lparr>speed = 0, influence = 100 / 3\<rparr>]"
        "[\<lparr>speed = 7, influence = 10\<rparr>, \<lparr>speed = 0, influence = 100 / 3\<rparr>]"]
    by (simp add: EPSILON_def easeToBezier_def Let_def round4_def js_round_def clamp01_def
        identity_bezier_def)
qed

text \<open>
  C7 in both copies: at a duration below the epsilon, at a value change below the
  epsilon, at a change of 10 in two seconds, where \<open>linearSpeed\<close> is 5, and in the
  first-dimension copy at empty value arrays.
\<close>

theorem C7_witness:
  "convertEasingWithValues [\<lparr>speed = 3, influence = 40\<rparr>] [\<lparr>speed = 3, influence = 40\<rparr>]
     (1 / 100000) (Num 0) (Num 10) = Inr \<lparr>x1 = 0, y1 = Some 0, x2 = 1, y2 = Some 1\<rparr> \<and>
   convertEasingWithValues0 [\<lparr>speed = 3, influence = 40\<rparr>] [\<lparr>speed = 3, influence = 40\<rparr>]
     (1 / 100000) (Num 0) (Num 10) = Inr \<lparr>x1 = 0, y1 = Some 0, x2 = 1, y2 = Some 1\<rparr> \<and>
   convertEasingWithValues [\<lparr>speed = 3, influence = 40\<rparr>] [\<lparr>speed = 3, influence = 40\<rparr>]
     2 (Num 3) (Num 3) = Inr \<lparr>x1 = 0, y1 = Some 0, x2 = 1, y2 = Some 1\<rparr> \<and>
   convertEasingWithValues0 [\<lparr>speed = 3, influence = 40\<rparr>] [\<lparr>speed = 3, influence = 40\<rparr>]
     2 (Num 3) (Num 3) = Inr \<lparr>x1 = 0, y1 = Some 0, x2 = 1, y2 = Some 1\<rparr> \<and>
   \<bar>(10 :: real) / 2\<bar> = 5 \<and>
   convertEasingWithValues [\<lparr>speed = 3, influence = 40\<rparr>] [\<lparr>speed = 3, influence = 40\<rparr>]
     2 (Num 0) (Num 10) =
     Inr \<lparr>x1 = 2 / 5, y1 = Some (6 / 25), x2 = 3 / 5, y2 = Some (19 / 25)\<rparr> \<and>
   convertEasingWithValues0 [\<lparr>speed = 3, influence = 40\<rparr>] [\<lparr>speed = 3, influence = 40\<rparr>]
     2 (Num 0) (Num 10) =
     Inr \<lparr>x1 = 2 / 5, y1 = Some (6 / 25), x2 = 3 / 5, y2 = Some (19 / 25)\<rparr> \<and>
   convertEasingWithValues [] [\<lparr>speed = 3, influence = 40\<rparr>] 2 (Num 0) (Num 10) = Inl TypeError \<and>
   convertEasingWithValues0 [\<lparr>speed = 3, influence = 40\<rparr>] [\<lparr>speed = 3, influence = 40\<rparr>]
     2 (Arr []) (Arr []) = Inr \<lparr>x1 = 2 / 5, y1 = None, x2 = 3 / 5, y2 = None\<rparr>"
  using C7_guard [of "Num 0" "Num 10" "1 / 100000" "[\<lparr>speed = 3, influence = 40\<rparr>]"
                     "[\<lparr>speed = 3, influence = 40\<rparr>]"]
        C7_guard [of "Num 3" "Num 3" 2 "[\<lparr>speed = 3, influence = 40\<rparr>]"
                     "[\<lparr>speed = 3, influence = 40\<rparr>]"]
        C7_guard [of "Num 0" "Num 10" 2 "[\<lparr>speed = 3, influence = 40\<rparr>]"
                     "[\<lparr>speed = 3, influence = 40\<rparr>]"]
        C7_guard [of "Num 0" "Num 10" 2 "[]" "[\<lparr>speed = 3, influence = 40\<rparr>]"]
        C7_guard [of "Arr []" "Arr []" 2 "[\<lparr>speed = 3, influence = 40\<rparr>]"
                     "[\<lparr>speed = 3, influence = 40\<rparr>]"]
  unfolding EPSILON_def
  by (simp add: js_index_def round4_def js_round_def clamp01_def)

section \<open>Properties of the sampling primitive\<close>

text \<open>
  On the identity curve both coordinates of the sample at \<open>t\<close> are \<open>3 t\<^sup>2 - 2 t\<^sup>3\<close>, and
  the derivative the loop computes is \<open>6 (1 - t) t\<close>.
\<close>

lemma sample_identity:
  "sampleCubicBezier 0 0 1 1 t = \<lparr>point_x = identityX t, point_y = identityX t\<rparr>"
  by (simp add: sampleCubicBezier_def identityX_def Let_def power2_eq_square power3_eq_cube
      algebra_simps)

lemma newton_identity_0: "newtonLoop 0 0 0 1 1 target e t = identityX t"
  by (simp add: newtonLoop.simps sample_identity)

lemma newton_identity_Suc:
  "newtonLoop (Suc n) 0 0 1 1 target e t =
     (if \<bar>identityX t - target\<bar> < e then identityX t
      else if \<bar>6 * (1 - t) * t\<bar> < e then identityX t
      else newtonLoop n 0 0 1 1 target e
             (max 0 (min 1 (t - (identityX t - target) / (6 * (1 - t) * t)))))"
  by (simp add: newtonLoop.simps sample_identity Let_def)

text \<open>The residual after a step of size \<open>h\<close>, and the symmetry of the curve.\<close>

lemma identityX_shift:
  "identityX (t - h) = identityX t - h * (6 * (1 - t) * t) + h\<^sup>2 * (3 - 6 * t + 2 * h)"
  by (simp add: identityX_def power2_eq_square power3_eq_cube algebra_simps)

lemma identityX_mirror: "identityX (1 - t) = 1 - identityX t"
  by (simp add: identityX_def power2_eq_square power3_eq_cube algebra_simps)

subsection \<open>A Newton step from the right of the root quarters the residual\<close>

text \<open>
  On the lower half of the curve, with a residual \<open>r\<close> between 0 and the sample, the
  step \<open>h = r / (6 (1 - t) t)\<close> leaves a residual \<open>h\<^sup>2 (3 - 6 t + 2 h)\<close> of at most
  \<open>r / 4\<close>. The polynomial inequality behind it: the difference of the two sides is
  \<open>8 t\<^sup>4 (9 - 15 t + 5 t\<^sup>2)\<close>.
\<close>

lemma poly_gap:
  assumes "0 \<le> t" "t \<le> 1 / 2"
  shows "4 * identityX t * (3 - 6 * t) * (6 * (1 - t) * t) + 8 * (identityX t)\<^sup>2
           \<le> (6 * (1 - t) * t) ^ 3"
proof -
  have eq: "(6 * (1 - t) * t) ^ 3
              - (4 * identityX t * (3 - 6 * t) * (6 * (1 - t) * t) + 8 * (identityX t)\<^sup>2)
            = 8 * t ^ 4 * (9 - 15 * t + 5 * t\<^sup>2)"
    by (simp add: identityX_def power2_eq_square power3_eq_cube power4_eq_xxxx algebra_simps)
  have "0 \<le> 9 - 15 * t + 5 * t\<^sup>2"
  proof -
    have "0 \<le> 5 * t\<^sup>2" by simp
    moreover have "15 * t \<le> 15 / 2" using assms by simp
    ultimately show ?thesis by linarith
  qed
  then have "0 \<le> 8 * t ^ 4 * (9 - 15 * t + 5 * t\<^sup>2)"
    by (intro mult_nonneg_nonneg) simp_all
  with eq show ?thesis by linarith
qed


lemma quarter_step:
  assumes t: "0 < t" "t \<le> 1 / 2" and r: "0 \<le> r" "r \<le> identityX t"
  shows "4 * ((r / (6 * (1 - t) * t))\<^sup>2 * (3 - 6 * t + 2 * (r / (6 * (1 - t) * t)))) \<le> r"
proof -
  define D where "D = 6 * (1 - t) * t"
  define R where "R = identityX t"
  have D: "0 < D" using t by (simp add: D_def)
  have c: "0 \<le> 3 - 6 * t" using t by simp
  have gap: "4 * R * (3 - 6 * t) * D + 8 * R\<^sup>2 \<le> D ^ 3"
    using poly_gap[of t] t by (simp add: D_def R_def)
  have R: "0 \<le> R" using r by (simp add: R_def)
  have m1: "4 * r * (3 - 6 * t) * D \<le> 4 * R * (3 - 6 * t) * D"
  proof -
    have "r * ((3 - 6 * t) * D) \<le> R * ((3 - 6 * t) * D)"
      using r c D by (intro mult_right_mono) (simp_all add: R_def)
    then show ?thesis by (simp add: mult.assoc)
  qed
  have m2: "8 * r\<^sup>2 \<le> 8 * R\<^sup>2"
    using r by (simp add: R_def power_mono)
  have A: "4 * r * (3 - 6 * t) * D + 8 * r\<^sup>2 \<le> D ^ 3"
    using gap m1 m2 by linarith
  have B: "r * (4 * r * (3 - 6 * t) * D + 8 * r\<^sup>2) \<le> r * D ^ 3"
    using A r by (intro mult_left_mono) simp_all
  have eq: "4 * ((r / D)\<^sup>2 * (3 - 6 * t + 2 * (r / D))) =
            (r * (4 * r * (3 - 6 * t) * D + 8 * r\<^sup>2)) / D ^ 3"
    using D by (simp add: field_simps power2_eq_square power3_eq_cube)
  have "(r * (4 * r * (3 - 6 * t) * D + 8 * r\<^sup>2)) / D ^ 3 \<le> r"
    using B D by (simp add: pos_divide_le_eq)
  then have "4 * ((r / D)\<^sup>2 * (3 - 6 * t + 2 * (r / D))) \<le> r"
    by (simp only: eq)
  then show ?thesis by (simp only: D_def)
qed

lemma identityX_le: "0 \<le> t \<Longrightarrow> t \<le> 1 / 2 \<Longrightarrow> identityX t \<le> 3 * t\<^sup>2"
  by (simp add: identityX_def)

lemma identityX_lt_slope:
  assumes "0 < t" "t \<le> 1 / 2"
  shows "identityX t < t * (6 * (1 - t) * t)"
proof -
  have "t * (6 * (1 - t) * t) - identityX t = t\<^sup>2 * (3 - 4 * t)"
    by (simp add: identityX_def power2_eq_square power3_eq_cube algebra_simps)
  moreover have "0 < t\<^sup>2 * (3 - 4 * t)" using assms by (intro mult_pos_pos) simp_all
  ultimately show ?thesis by linarith
qed

text \<open>
  From a parameter in the lower half with a non-negative residual below
  \<open>0.0001 \<sqdot> 4\<^sup>n\<close>, \<open>n + 1\<close> iterations are enough: every iteration either returns
  through the residual test or takes an unclamped step that quarters the residual, and
  the derivative test never fires.
\<close>

lemma descent:
  assumes "0 \<le> target" "0 < t" "t \<le> 1 / 2" "0 \<le> identityX t - target"
    "identityX t - target < (1 / 10000) * 4 ^ n"
  shows "\<bar>newtonLoop (Suc n) 0 0 1 1 target (1 / 10000) t - target\<bar> < 1 / 10000"
  using assms
proof (induction n arbitrary: t)
  case 0
  then show ?case by (simp add: newton_identity_Suc)
next
  case (Suc n)
  define r where "r = identityX t - target"
  define D where "D = 6 * (1 - t) * t"
  define h where "h = r / D"
  show ?case
  proof (cases "r < 1 / 10000")
    case True
    then show ?thesis using Suc.prems by (simp add: newton_identity_Suc r_def)
  next
    case False
    have t: "0 < t" "t \<le> 1 / 2" using Suc.prems by simp_all
    have r0: "0 \<le> r" using Suc.prems by (simp add: r_def)
    have rle: "r \<le> identityX t" using Suc.prems by (simp add: r_def)
    have D3: "3 * t \<le> D"
    proof -
      have "t * 3 \<le> t * (6 * (1 - t))" using t by (intro mult_left_mono) simp_all
      then show ?thesis by (simp add: D_def mult.commute mult.left_commute)
    qed
    have Dpos: "0 < D" using t D3 by linarith
    have big: "1 / 10000 \<le> 3 * t"
    proof (rule ccontr)
      assume "\<not> 1 / 10000 \<le> 3 * t"
      then have lt: "3 * t < 1 / 10000" by simp
      have "3 * t\<^sup>2 = (3 * t) * t" by (simp add: power2_eq_square)
      also have "\<dots> \<le> (1 / 10000) * t" using lt t by (intro mult_right_mono) simp_all
      also have "\<dots> < 1 / 10000" using t by simp
      finally have "3 * t\<^sup>2 < 1 / 10000" .
      moreover have "identityX t \<le> 3 * t\<^sup>2" using identityX_le t by simp
      ultimately show False using False rle by linarith
    qed
    have nobreak: "\<not> \<bar>D\<bar> < 1 / 10000" using big D3 by linarith
    have h0: "0 \<le> h" using r0 Dpos by (simp add: h_def)
    have hD: "h * D = r" using Dpos by (simp add: h_def)
    have hlt: "h < t"
    proof -
      have "r < t * D" using identityX_lt_slope[OF t] rle by (simp add: D_def)
      then show ?thesis using Dpos by (simp add: h_def pos_divide_less_eq)
    qed
    have clamp: "max 0 (min 1 (t - h)) = t - h" using hlt h0 t by simp
    have r': "identityX (t - h) - target = h\<^sup>2 * (3 - 6 * t + 2 * h)"
      using identityX_shift[of t h] hD by (simp add: D_def r_def)
    have r'0: "0 \<le> identityX (t - h) - target"
      unfolding r' using h0 t by (intro mult_nonneg_nonneg) simp_all
    have q: "4 * (h\<^sup>2 * (3 - 6 * t + 2 * h)) \<le> r"
      using quarter_step[OF t r0 rle] by (simp add: h_def D_def)
    have r'lt: "identityX (t - h) - target < (1 / 10000) * 4 ^ n"
    proof -
      have "r < (1 / 10000) * 4 ^ Suc n" using Suc.prems by (simp add: r_def)
      then show ?thesis using q unfolding r' by simp
    qed
    have step: "newtonLoop (Suc (Suc n)) 0 0 1 1 target (1 / 10000) t =
                newtonLoop (Suc n) 0 0 1 1 target (1 / 10000) (t - h)"
    proof -
      have "\<not> \<bar>identityX t - target\<bar> < 1 / 10000" using False r0 by (simp add: r_def)
      moreover have "\<not> \<bar>6 * (1 - t) * t\<bar> < 1 / 10000" using nobreak by (simp add: D_def)
      moreover have "max 0 (min 1 (t - (identityX t - target) / (6 * (1 - t) * t))) = t - h"
        using clamp by (simp add: h_def r_def D_def)
      ultimately show ?thesis by (subst newton_identity_Suc) simp
    qed
    have "\<bar>newtonLoop (Suc n) 0 0 1 1 target (1 / 10000) (t - h) - target\<bar> < 1 / 10000"
      using Suc.IH[of "t - h"] Suc.prems(1) hlt h0 t r'0 r'lt by simp
    then show ?thesis by (simp only: step)
  qed
qed


subsection \<open>The first step\<close>

text \<open>
  From the initial guess \<open>t = target\<close> in the lower half the residual is not positive;
  the first step lands on \<open>(1 + 4 target) / 6\<close>, to the right of the root, with residual
  \<open>2 (1 - 2 target)\<^sup>3 / 27\<close>.
\<close>

lemma first_step_residual:
  "identityX ((1 + 4 * target) / 6) - target = 2 * (1 - 2 * target) ^ 3 / 27"
  by (simp add: identityX_def power2_eq_square power3_eq_cube field_simps)

lemma start_residual: "identityX target - target = - (target * (1 - target) * (1 - 2 * target))"
  by (simp add: identityX_def power2_eq_square power3_eq_cube algebra_simps)

lemma lower_half:
  assumes "0 \<le> target" "target \<le> 1 / 2"
  shows "\<bar>newtonLoop 10 0 0 1 1 target (1 / 10000) target - target\<bar> < 1 / 10000"
proof -
  define g where "g = target * (1 - target) * (1 - 2 * target)"
  have g0: "0 \<le> g" unfolding g_def using assms by (intro mult_nonneg_nonneg) simp_all
  have res: "identityX target - target = - g" by (simp add: start_residual g_def)
  have ten: "(10::nat) = Suc 9" by simp
  show ?thesis
  proof (cases "g < 1 / 10000")
    case True
    then have "\<bar>identityX target - target\<bar> < 1 / 10000" using g0 res by simp
    then show ?thesis unfolding ten by (subst newton_identity_Suc) simp
  next
    case False
    define D where "D = 6 * (1 - target) * target"
    have pos: "0 < target"
    proof (rule ccontr)
      assume "\<not> 0 < target"
      then have "target = 0" using assms by simp
      then show False using False by (simp add: g_def)
    qed
    have tm: "0 \<le> target * (1 - target)" using assms by (intro mult_nonneg_nonneg) simp_all
    have "g \<le> target * (1 - target) * 1"
      unfolding g_def using assms tm by (intro mult_left_mono) simp_all
    then have "6 * g \<le> 6 * (target * (1 - target))" by simp
    also have "\<dots> = D" by (simp add: D_def algebra_simps)
    finally have gD: "6 * g \<le> D" .
    have Dpos: "0 < D" using gD False g0 by linarith
    have nobreak: "\<not> \<bar>D\<bar> < 1 / 10000" using gD False g0 by linarith
    have quot: "g / D = (1 - 2 * target) / 6"
    proof -
      have "g = D * ((1 - 2 * target) / 6)" by (simp add: g_def D_def field_simps)
      then show ?thesis using Dpos by (simp add: field_simps)
    qed
    define t1 where "t1 = (1 + 4 * target) / 6"
    have t1: "0 < t1" "t1 \<le> 1 / 2" using assms pos by (simp_all add: t1_def)
    have nxt: "target - (identityX target - target) / D = t1"
      using quot by (simp add: res t1_def field_simps)
    have clamp: "max 0 (min 1 t1) = t1" using t1 by simp
    have step: "newtonLoop 10 0 0 1 1 target (1 / 10000) target =
                newtonLoop 9 0 0 1 1 target (1 / 10000) t1"
    proof -
      have "\<not> \<bar>identityX target - target\<bar> < 1 / 10000" using False g0 by (simp add: res)
      moreover have "\<not> \<bar>6 * (1 - target) * target\<bar> < 1 / 10000"
        using nobreak by (simp add: D_def)
      moreover have
        "max 0 (min 1 (target - (identityX target - target) / (6 * (1 - target) * target))) = t1"
        using clamp nxt by (simp add: D_def)
      ultimately show ?thesis unfolding ten by (subst newton_identity_Suc) simp
    qed
    have r1: "identityX t1 - target = 2 * (1 - 2 * target) ^ 3 / 27"
      by (simp only: t1_def first_step_residual)
    have c: "0 \<le> 1 - 2 * target" "1 - 2 * target \<le> 1" using assms by simp_all
    have cube0: "0 \<le> (1 - 2 * target) ^ 3" using c by simp
    have cube1: "(1 - 2 * target) ^ 3 \<le> 1" using c by (simp add: power_le_one)
    have r1_0: "0 \<le> identityX t1 - target" unfolding r1 using cube0 by simp
    have r1_b: "identityX t1 - target < (1 / 10000) * 4 ^ 8" unfolding r1 using cube1 by simp
    have nine: "(9::nat) = Suc 8" by simp
    have "\<bar>newtonLoop (Suc 8) 0 0 1 1 target (1 / 10000) t1 - target\<bar> < 1 / 10000"
      using descent[OF assms(1) t1 r1_0 r1_b] .
    then show ?thesis by (simp only: step nine)
  qed
qed

subsection \<open>The upper half, by symmetry\<close>

lemma clamp_mirror: "max 0 (min 1 (1 - q)) = 1 - max 0 (min 1 (q::real))"
  by (simp add: max_def min_def)

lemma newton_mirror:
  "newtonLoop n 0 0 1 1 (1 - target) e (1 - t) = 1 - newtonLoop n 0 0 1 1 target e t"
proof (induction n arbitrary: t)
  case 0
  show ?case by (simp add: newton_identity_0 identityX_mirror)
next
  case (Suc n)
  define r where "r = identityX t - target"
  define q where "q = t - r / (6 * (1 - t) * t)"
  have a: "\<bar>1 - identityX t - (1 - target)\<bar> = \<bar>identityX t - target\<bar>"
    by simp
  have b: "6 * (1 - (1 - t)) * (1 - t) = 6 * (1 - t) * t" by simp
  have c: "1 - t - (1 - identityX t - (1 - target)) / (6 * (1 - t) * t) = 1 - q"
  proof -
    have e: "1 - identityX t - (1 - target) = - r" by (simp add: r_def)
    show ?thesis unfolding q_def e by simp
  qed
  have left: "newtonLoop (Suc n) 0 0 1 1 (1 - target) e (1 - t) =
     (if \<bar>identityX t - target\<bar> < e then 1 - identityX t
      else if \<bar>6 * (1 - t) * t\<bar> < e then 1 - identityX t
      else 1 - newtonLoop n 0 0 1 1 target e (max 0 (min 1 q)))"
    by (subst newton_identity_Suc) (simp only: identityX_mirror a b c clamp_mirror Suc.IH)
  have right: "newtonLoop (Suc n) 0 0 1 1 target e t =
     (if \<bar>identityX t - target\<bar> < e then identityX t
      else if \<bar>6 * (1 - t) * t\<bar> < e then identityX t
      else newtonLoop n 0 0 1 1 target e (max 0 (min 1 q)))"
    by (subst newton_identity_Suc) (simp only: q_def r_def)
  show ?case by (simp only: left right) simp
qed

subsection \<open>The identity curve\<close>

lemma identity_within_epsilon:
  assumes "0 \<le> t" "t \<le> 1"
  shows "\<bar>bezierYForX_default 0 0 1 1 t - t\<bar> < 1 / 10000"
proof (cases "t \<le> 1 / 2")
  case True
  then show ?thesis
    using lower_half[OF assms(1) True] by (simp add: bezierYForX_default_def bezierYForX_def)
next
  case False
  then have m: "0 \<le> 1 - t" "1 - t \<le> 1 / 2" using assms by simp_all
  have "newtonLoop 10 0 0 1 1 (1 - (1 - t)) (1 / 10000) (1 - (1 - t)) =
        1 - newtonLoop 10 0 0 1 1 (1 - t) (1 / 10000) (1 - t)"
    by (rule newton_mirror)
  then have "newtonLoop 10 0 0 1 1 t (1 / 10000) t =
        1 - newtonLoop 10 0 0 1 1 (1 - t) (1 / 10000) (1 - t)" by simp
  moreover have "\<bar>newtonLoop 10 0 0 1 1 (1 - t) (1 / 10000) (1 - t) - (1 - t)\<bar> < 1 / 10000"
    using lower_half[OF m] .
  ultimately have "\<bar>newtonLoop 10 0 0 1 1 t (1 / 10000) t - t\<bar> < 1 / 10000" by linarith
  then show ?thesis by (simp add: bezierYForX_default_def bezierYForX_def)
qed

text \<open>The run for the target 1/4: two steps, to 1/3 and to 47/144, then the residual test.\<close>

lemma quarter_run:
  "newtonLoop 10 0 0 1 1 (1 / 4) (1 / 10000) (1 / 4) = 373321 / 1492992"
proof -
  have n: "(10::nat) = Suc 9" "(9::nat) = Suc 8" "(8::nat) = Suc 7" by simp_all
  have s1: "newtonLoop 10 0 0 1 1 (1 / 4) (1 / 10000) (1 / 4) =
            newtonLoop 9 0 0 1 1 (1 / 4) (1 / 10000) (1 / 3)"
    unfolding n(1)
    by (subst newton_identity_Suc) (simp add: identityX_def power2_eq_square power3_eq_cube)
  have s2: "newtonLoop 9 0 0 1 1 (1 / 4) (1 / 10000) (1 / 3) =
            newtonLoop 8 0 0 1 1 (1 / 4) (1 / 10000) (47 / 144)"
    unfolding n(2)
    by (subst newton_identity_Suc) (simp add: identityX_def power2_eq_square power3_eq_cube)
  have s3: "newtonLoop 8 0 0 1 1 (1 / 4) (1 / 10000) (47 / 144) = 373321 / 1492992"
    unfolding n(3)
    by (subst newton_identity_Suc) (simp add: identityX_def power2_eq_square power3_eq_cube)
  show ?thesis by (simp only: s1 s2 s3)
qed


text \<open>At 0, 1/2 and 1 the initial guess has residual 0.\<close>

lemma exact_points:
  "bezierYForX_default 0 0 1 1 0 = 0 \<and> bezierYForX_default 0 0 1 1 (1 / 2) = 1 / 2 \<and>
   bezierYForX_default 0 0 1 1 1 = 1"
proof -
  have ten: "(10::nat) = Suc 9" by simp
  have "newtonLoop (Suc 9) 0 0 1 1 0 (1 / 10000) 0 = 0"
    by (subst newton_identity_Suc) (simp add: identityX_def)
  moreover have "newtonLoop (Suc 9) 0 0 1 1 (1 / 2) (1 / 10000) (1 / 2) = 1 / 2"
    by (subst newton_identity_Suc) (simp add: identityX_def power2_eq_square power3_eq_cube)
  moreover have "newtonLoop (Suc 9) 0 0 1 1 1 (1 / 10000) 1 = 1"
    by (subst newton_identity_Suc) (simp add: identityX_def)
  ultimately show ?thesis
    unfolding bezierYForX_default_def bezierYForX_def ten by simp
qed

text \<open>The two ways out of an iteration, and the step, for any curve.\<close>

lemma residual_exit:
  "\<bar>point_x (sampleCubicBezier cx1 cy1 cx2 cy2 u) - targetX\<bar> < epsilon \<Longrightarrow>
   newtonLoop (Suc n) cx1 cy1 cx2 cy2 targetX epsilon u =
     point_y (sampleCubicBezier cx1 cy1 cx2 cy2 u)"
  by (simp add: newtonLoop.simps Let_def)

lemma derivative_exit:
  "\<bar>3 * (1 - u) * (1 - u) * cx1 + 6 * (1 - u) * u * (cx2 - cx1) + 3 * u * u * (1 - cx2)\<bar>
     < epsilon \<Longrightarrow>
   newtonLoop (Suc n) cx1 cy1 cx2 cy2 targetX epsilon u =
     point_y (sampleCubicBezier cx1 cy1 cx2 cy2 u)"
  by (simp add: newtonLoop.simps Let_def)

lemma clamped_step:
  "\<not> \<bar>point_x (sampleCubicBezier cx1 cy1 cx2 cy2 u) - targetX\<bar> < epsilon \<Longrightarrow>
   \<not> \<bar>3 * (1 - u) * (1 - u) * cx1 + 6 * (1 - u) * u * (cx2 - cx1) + 3 * u * u * (1 - cx2)\<bar>
       < epsilon \<Longrightarrow>
   newtonLoop (Suc n) cx1 cy1 cx2 cy2 targetX epsilon u =
     newtonLoop n cx1 cy1 cx2 cy2 targetX epsilon
       (max 0 (min 1 (u - (point_x (sampleCubicBezier cx1 cy1 cx2 cy2 u) - targetX) /
          (3 * (1 - u) * (1 - u) * cx1 + 6 * (1 - u) * u * (cx2 - cx1) + 3 * u * u * (1 - cx2)))))"
  by (simp add: newtonLoop.simps Let_def)

text \<open>
  The value returned is the curve's y at the initial guess or at a parameter that a step
  has clamped into [0,1].
\<close>

lemma newtonLoop_parameter:
  "\<exists>v. newtonLoop n cx1 cy1 cx2 cy2 targetX epsilon u =
          point_y (sampleCubicBezier cx1 cy1 cx2 cy2 v) \<and> (v = u \<or> 0 \<le> v \<and> v \<le> 1)"
proof (induction n arbitrary: u)
  case 0
  show ?case by (auto simp: newtonLoop.simps)
next
  case (Suc n)
  let ?dx = "point_x (sampleCubicBezier cx1 cy1 cx2 cy2 u) - targetX"
  let ?d = "3 * (1 - u) * (1 - u) * cx1 + 6 * (1 - u) * u * (cx2 - cx1) + 3 * u * u * (1 - cx2)"
  show ?case
  proof (cases "\<bar>?dx\<bar> < epsilon \<or> \<bar>?d\<bar> < epsilon")
    case True
    then have "newtonLoop (Suc n) cx1 cy1 cx2 cy2 targetX epsilon u =
               point_y (sampleCubicBezier cx1 cy1 cx2 cy2 u)"
      using residual_exit derivative_exit by blast
    then show ?thesis by blast
  next
    case False
    let ?w = "max 0 (min 1 (u - ?dx / ?d))"
    from False have "newtonLoop (Suc n) cx1 cy1 cx2 cy2 targetX epsilon u =
                     newtonLoop n cx1 cy1 cx2 cy2 targetX epsilon ?w"
      using clamped_step by blast
    moreover obtain v where "newtonLoop n cx1 cy1 cx2 cy2 targetX epsilon ?w =
          point_y (sampleCubicBezier cx1 cy1 cx2 cy2 v)" "v = ?w \<or> 0 \<le> v \<and> v \<le> 1"
      using Suc.IH[of ?w] by blast
    moreover have "0 \<le> ?w \<and> ?w \<le> 1" by simp
    ultimately show ?thesis by metis
  qed
qed

text \<open>
  A run that uses all ten iterations: on the curve with x control points -1/2 and -2 and
  the target 1/2, the first step leaves [0,1] and is clamped to 0, and so is every later
  step; after the tenth the y at the parameter 0 is returned, where the residual is still
  1/2.
\<close>

lemma stuck_at_zero:
  "newtonLoop n (- (1 / 2)) 0 (- 2) 1 (1 / 2) (1 / 10000) 0 = 0"
proof (induction n)
  case 0
  show ?case by (simp add: newtonLoop.simps sampleCubicBezier_def)
next
  case (Suc n)
  then show ?case
    by (subst newtonLoop.simps) (simp add: sampleCubicBezier_def Let_def)
qed

lemma capped_run:
  "bezierYForX (- (1 / 2)) 0 (- 2) 1 (1 / 2) (1 / 10000) =
     newtonLoop 9 (- (1 / 2)) 0 (- 2) 1 (1 / 2) (1 / 10000) 0 \<and>
   bezierYForX (- (1 / 2)) 0 (- 2) 1 (1 / 2) (1 / 10000) =
     point_y (sampleCubicBezier (- (1 / 2)) 0 (- 2) 1 0) \<and>
   \<bar>point_x (sampleCubicBezier (- (1 / 2)) 0 (- 2) 1 0) - 1 / 2\<bar> = 1 / 2"
proof -
  have ten: "(10::nat) = Suc 9" by simp
  have first: "newtonLoop (Suc 9) (- (1 / 2)) 0 (- 2) 1 (1 / 2) (1 / 10000) (1 / 2) =
               newtonLoop 9 (- (1 / 2)) 0 (- 2) 1 (1 / 2) (1 / 10000) 0"
    by (subst newtonLoop.simps) (simp add: sampleCubicBezier_def Let_def)
  have y0: "point_y (sampleCubicBezier (- (1 / 2)) 0 (- 2) 1 0) = 0"
    by (simp add: sampleCubicBezier_def)
  have x0: "\<bar>point_x (sampleCubicBezier (- (1 / 2)) 0 (- 2) 1 0) - 1 / 2\<bar> = 1 / 2"
    by (simp add: sampleCubicBezier_def)
  show ?thesis
    unfolding bezierYForX_def ten
    using first stuck_at_zero [of 9] y0 x0 by simp
qed

text \<open>
  Claim C9, as the code behaves. For every \<open>t\<close> in [0,1], \<open>bezierYForX\<close> on the identity
  curve (0,0,1,1) with the default epsilon returns a value within 0.0001 of \<open>t\<close>; it is
  exactly \<open>t\<close> at 0, 1/2 and 1. For any curve: \<open>bezierYForX\<close> is the loop with ten
  iterations from the initial guess \<open>targetX\<close>; an iteration returns the sampled y as soon
  as the residual is below epsilon, and leaves the loop without dividing, with the y
  sampled at the current parameter, when the derivative is below epsilon; otherwise it
  takes the Newton step and clamps the new parameter to [0,1]; with no iteration left the
  y at the current parameter is returned. So the value returned is always the curve's y
  at the initial guess or at a parameter in [0,1]. The last conjunct is a run that uses
  all ten iterations, each clamped to 0, and returns with the residual still at 1/2.
\<close>

theorem C9_identity_curve:
  "(0 \<le> t \<and> t \<le> 1 \<longrightarrow> \<bar>bezierYForX_default 0 0 1 1 t - t\<bar> < 1 / 10000) \<and>
   bezierYForX_default 0 0 1 1 0 = 0 \<and> bezierYForX_default 0 0 1 1 (1 / 2) = 1 / 2 \<and>
   bezierYForX_default 0 0 1 1 1 = 1 \<and>
   bezierYForX_default cx1 cy1 cx2 cy2 targetX = bezierYForX cx1 cy1 cx2 cy2 targetX (1 / 10000) \<and>
   bezierYForX cx1 cy1 cx2 cy2 targetX epsilon =
     newtonLoop 10 cx1 cy1 cx2 cy2 targetX epsilon targetX \<and>
   (\<bar>point_x (sampleCubicBezier cx1 cy1 cx2 cy2 u) - targetX\<bar> < epsilon \<longrightarrow>
      newtonLoop (Suc n) cx1 cy1 cx2 cy2 targetX epsilon u =
        point_y (sampleCubicBezier cx1 cy1 cx2 cy2 u)) \<and>
   (\<bar>3 * (1 - u) * (1 - u) * cx1 + 6 * (1 - u) * u * (cx2 - cx1) + 3 * u * u * (1 - cx2)\<bar>
      < epsilon \<longrightarrow>
      newtonLoop (Suc n) cx1 cy1 cx2 cy2 targetX epsilon u =
        point_y (sampleCubicBezier cx1 cy1 cx2 cy2 u)) \<and>
   (\<not> \<bar>point_x (sampleCubicBezier cx1 cy1 cx2 cy2 u) - targetX\<bar> < epsilon \<and>
    \<not> \<bar>3 * (1 - u) * (1 - u) * cx1 + 6 * (1 - u) * u * (cx2 - cx1) + 3 * u * u * (1 - cx2)\<bar>
        < epsilon \<longrightarrow>
      newtonLoop (Suc n) cx1 cy1 cx2 cy2 targetX epsilon u =
        newtonLoop n cx1 cy1 cx2 cy2 targetX epsilon
          (max 0 (min 1 (u - (point_x (sampleCubicBezier cx1 cy1 cx2 cy2 u) - targetX) /
             (3 * (1 - u) * (1 - u) * cx1 + 6 * (1 - u) * u * (cx2 - cx1) +
              3 * u * u * (1 - cx2)))))) \<and>
   newtonLoop 0 cx1 cy1 cx2 cy2 targetX epsilon u =
     point_y (sampleCubicBezier cx1 cy1 cx2 cy2 u) \<and>
   (\<exists>v. bezierYForX cx1 cy1 cx2 cy2 targetX epsilon =
           point_y (sampleCubicBezier cx1 cy1 cx2 cy2 v) \<and>
         (v = targetX \<or> 0 \<le> v \<and> v \<le> 1)) \<and>
   bezierYForX (- (1 / 2)) 0 (- 2) 1 (1 / 2) (1 / 10000) =
     newtonLoop 9 (- (1 / 2)) 0 (- 2) 1 (1 / 2) (1 / 10000) 0 \<and>
   bezierYForX (- (1 / 2)) 0 (- 2) 1 (1 / 2) (1 / 10000) =
     point_y (sampleCubicBezier (- (1 / 2)) 0 (- 2) 1 0) \<and>
   \<bar>point_x (sampleCubicBezier (- (1 / 2)) 0 (- 2) 1 0) - 1 / 2\<bar> = 1 / 2"
proof -
  have a: "0 \<le> t \<and> t \<le> 1 \<longrightarrow> \<bar>bezierYForX_default 0 0 1 1 t - t\<bar> < 1 / 10000"
    using identity_within_epsilon [of t] by blast
  have b: "\<exists>v. bezierYForX cx1 cy1 cx2 cy2 targetX epsilon =
           point_y (sampleCubicBezier cx1 cy1 cx2 cy2 v) \<and>
         (v = targetX \<or> 0 \<le> v \<and> v \<le> 1)"
    unfolding bezierYForX_def by (rule newtonLoop_parameter)
  have c: "newtonLoop 0 cx1 cy1 cx2 cy2 targetX epsilon u =
     point_y (sampleCubicBezier cx1 cy1 cx2 cy2 u)"
    by (simp add: newtonLoop.simps)
  have d: "bezierYForX_default cx1 cy1 cx2 cy2 targetX =
           bezierYForX cx1 cy1 cx2 cy2 targetX (1 / 10000)"
    by (simp add: bezierYForX_default_def)
  have e: "bezierYForX cx1 cy1 cx2 cy2 targetX epsilon =
     newtonLoop 10 cx1 cy1 cx2 cy2 targetX epsilon targetX"
    by (simp add: bezierYForX_def)
  show ?thesis
    using a b c d e exact_points capped_run
      residual_exit [of cx1 cy1 cx2 cy2 u targetX epsilon n]
      derivative_exit [of u cx1 cx2 epsilon n cy1 cy2 targetX]
      clamped_step [of cx1 cy1 cx2 cy2 u targetX epsilon n]
    by blast
qed

text \<open>
  Claim C9 as stated fails at \<open>t = 1/4\<close>: the value returned is 373321/1492992, not
  1/4.
\<close>

theorem C9_counterexample:
  "bezierYForX_default 0 0 1 1 (1 / 4) = 373321 / 1492992 \<and>
   bezierYForX_default 0 0 1 1 (1 / 4) \<noteq> 1 / 4"
  using quarter_run by (simp add: bezierYForX_default_def bezierYForX_def)

text \<open>
  C9 at \<open>t = 1/4\<close>: the first iteration steps from the parameter 1/4 to 1/3, and the
  residual test is passed at the parameter 47/144.
\<close>

theorem C9_witness:
  "bezierYForX_default 0 0 1 1 (1 / 4) = 373321 / 1492992 \<and>
   \<bar>bezierYForX_default 0 0 1 1 (1 / 4) - 1 / 4\<bar> < 1 / 10000 \<and>
   newtonLoop 10 0 0 1 1 (1 / 4) (1 / 10000) (1 / 4) =
     newtonLoop 9 0 0 1 1 (1 / 4) (1 / 10000) (1 / 3) \<and>
   newtonLoop 3 0 0 1 1 (1 / 4) (1 / 10000) (47 / 144) = 373321 / 1492992"
proof -
  have q: "bezierYForX_default 0 0 1 1 (1 / 4) = 373321 / 1492992"
    using quarter_run by (simp add: bezierYForX_default_def bezierYForX_def)
  have three: "(3::nat) = Suc 2" and ten: "(10::nat) = Suc 9" by simp_all
  have res: "\<bar>point_x (sampleCubicBezier 0 0 1 1 (47 / 144)) - 1 / 4\<bar> < 1 / 10000"
    by (simp add: sample_identity identityX_def power2_eq_square power3_eq_cube)
  have y: "point_y (sampleCubicBezier 0 0 1 1 (47 / 144)) = 373321 / 1492992"
    by (simp add: sample_identity identityX_def power2_eq_square power3_eq_cube)
  have x4: "point_x (sampleCubicBezier 0 0 1 1 (1 / 4)) = 5 / 32"
    by (simp add: sample_identity identityX_def power2_eq_square power3_eq_cube)
  have step: "newtonLoop (Suc 9) 0 0 1 1 (1 / 4) (1 / 10000) (1 / 4) =
              newtonLoop 9 0 0 1 1 (1 / 4) (1 / 10000) (1 / 3)"
    using C9_identity_curve [where t = "1 / 4" and ?cx1.0 = 0 and ?cy1.0 = 0 and ?cx2.0 = 1
        and ?cy2.0 = 1 and u = "1 / 4" and targetX = "1 / 4" and epsilon = "1 / 10000"
        and n = 9]
    by (simp add: x4)
  have last: "newtonLoop (Suc 2) 0 0 1 1 (1 / 4) (1 / 10000) (47 / 144) = 373321 / 1492992"
    using res y
      C9_identity_curve [where t = "1 / 4" and ?cx1.0 = 0 and ?cy1.0 = 0 and ?cx2.0 = 1
        and ?cy2.0 = 1 and u = "47 / 144" and targetX = "1 / 4" and epsilon = "1 / 10000"
        and n = 2]
    by simp
  have near: "\<bar>bezierYForX_default 0 0 1 1 (1 / 4) - 1 / 4\<bar> < 1 / 10000"
  proof -
    have "0 \<le> (1 / 4 :: real) \<and> (1 / 4 :: real) \<le> 1" by simp
    then show ?thesis
      using C9_identity_curve [where t = "1 / 4" and ?cx1.0 = 0 and ?cy1.0 = 0 and ?cx2.0 = 1
          and ?cy2.0 = 1 and u = "1 / 4" and targetX = "1 / 4" and epsilon = "1 / 10000"
          and n = 9]
      by blast
  qed
  show ?thesis
    using q near step last unfolding three ten by simp
qed

section \<open>Properties of keyframe extraction\<close>

text \<open>
  The loop pushes, in index order, the keyframe of every index whose body does not take
  the \<open>continue\<close>.
\<close>

lemma keyframesLoop_eq:
  "keyframesLoop conv p fr n i acc = acc @ List.map_filter (extractKeyframe conv p fr n) [i..n]"
proof (induction conv p fr n i acc rule: keyframesLoop.induct)
  case (1 conv p fr n i acc)
  show ?case
  proof (cases "i \<le> n")
    case False
    then show ?thesis by (subst keyframesLoop.simps) simp
  next
    case True
    then have up: "[i..n] = i # [i + 1..n]" by (simp add: upto_rec1)
    show ?thesis
    proof (cases "extractKeyframe conv p fr n i")
      case None
      with True "1.IH"(1) show ?thesis
        by (subst keyframesLoop.simps) (simp add: up)
    next
      case (Some kf)
      with True "1.IH"(2) show ?thesis
        by (subst keyframesLoop.simps) (simp add: up)
    qed
  qed
qed

text \<open>The body skips index \<open>i\<close> exactly when \<open>keyTime(i)\<close> throws; otherwise the keyframe
  carries \<open>i\<close> and the time read.\<close>

lemma extractKeyframe_Some:
  "extractKeyframe conv p fr n i = Some kf \<Longrightarrow> kf_index kf = i \<and> keyTime p i = Some (kf_time kf)"
  by (auto simp: extractKeyframe_def Let_def split: option.splits)

lemma extractKeyframe_None:
  "extractKeyframe conv p fr n i = None \<longleftrightarrow> keyTime p i = None"
  by (auto simp: extractKeyframe_def Let_def split: option.splits)

lemma map_filter_index:
  "map kf_index (List.map_filter (extractKeyframe conv p fr n) is) =
     filter (\<lambda>i. keyTime p i \<noteq> None) is"
proof (induction "is")
  case Nil
  show ?case by simp
next
  case (Cons i "is")
  show ?case
  proof (cases "extractKeyframe conv p fr n i")
    case None
    then show ?thesis using Cons extractKeyframe_None[of conv p fr n i]
      by simp
  next
    case (Some kf)
    then have "keyTime p i \<noteq> None" using extractKeyframe_None[of conv p fr n i] by simp
    then show ?thesis using Cons Some extractKeyframe_Some[OF Some]
      by simp
  qed
qed

lemma map_filter_time:
  "map kf_time (List.map_filter (extractKeyframe conv p fr n) is) =
     map (\<lambda>i. the (keyTime p i)) (filter (\<lambda>i. keyTime p i \<noteq> None) is)"
proof (induction "is")
  case Nil
  show ?case by simp
next
  case (Cons i "is")
  show ?case
  proof (cases "extractKeyframe conv p fr n i")
    case None
    then show ?thesis using Cons extractKeyframe_None[of conv p fr n i]
      by simp
  next
    case (Some kf)
    then have "keyTime p i \<noteq> None" using extractKeyframe_None[of conv p fr n i] by simp
    then show ?thesis using Cons Some extractKeyframe_Some[OF Some]
      by simp
  qed
qed

lemma set_map_filter_keyframes:
  "kf \<in> set (List.map_filter (extractKeyframe conv p fr n) is) \<Longrightarrow>
     kf_index kf \<in> set is \<and> keyTime p (kf_index kf) = Some (kf_time kf)"
  by (induction "is") (auto split: option.splits dest: extractKeyframe_Some)

lemma sorted_times:
  assumes mono: "\<forall>i j a b. 1 \<le> i \<and> i \<le> j \<and> j \<le> n \<and> keyTime p i = Some a \<and> keyTime p j = Some b \<longrightarrow> a \<le> b"
  shows "sorted (map (\<lambda>i. the (keyTime p i)) (filter (\<lambda>i. keyTime p i \<noteq> None) [1..n]))"
proof -
  have "sorted_wrt (<) (filter (\<lambda>i. keyTime p i \<noteq> None) [1..n])"
    by (simp add: sorted_wrt_filter strict_sorted_iff)
  then have "sorted_wrt (\<lambda>i j. the (keyTime p i) \<le> the (keyTime p j)) (filter (\<lambda>i. keyTime p i \<noteq> None) [1..n])"
  proof (rule sorted_wrt_mono_rel[rotated])
    fix i j
    assume i: "i \<in> set (filter (\<lambda>i. keyTime p i \<noteq> None) [1..n])"
      and j: "j \<in> set (filter (\<lambda>i. keyTime p i \<noteq> None) [1..n])" and lt: "i < j"
    from i obtain a where a: "keyTime p i = Some a" "1 \<le> i" by auto
    from j obtain b where b: "keyTime p j = Some b" "j \<le> n" by auto
    from mono a b lt have "a \<le> b" by (meson less_imp_le)
    then show "the (keyTime p i) \<le> the (keyTime p j)" using a b by simp
  qed
  then show ?thesis by (simp add: sorted_map)
qed

text \<open>
  Claim C4, as the code behaves. The \<open>index\<close> fields of the list \<open>extractKeyframes\<close>
  returns are the host indices in \<open>1..numKeys\<close> whose \<open>keyTime\<close> read succeeds, in
  increasing order, and each entry's time is the host's time at its index. The indices
  are exactly \<open>1..N\<close>, with \<open>N\<close> the number of returned keyframes, when no \<open>keyTime\<close>
  read fails; the times are non-decreasing when the host's key times are non-decreasing
  in the index.
\<close>

theorem C4_keyframe_order:
  assumes r: "extractKeyframes conv property frameRate = Inr kfs"
  shows "\<exists>n. numKeys property = Some n \<and>
           map kf_index kfs = filter (\<lambda>i. keyTime property i \<noteq> None) [1..n] \<and>
           (\<forall>kf \<in> set kfs. keyTime property (kf_index kf) = Some (kf_time kf)) \<and>
           sorted_wrt (<) (map kf_index kfs) \<and>
           ((\<forall>i \<in> set [1..n]. keyTime property i \<noteq> None) \<longrightarrow>
              map kf_index kfs = [1..int (length kfs)]) \<and>
           ((\<forall>i j a b. 1 \<le> i \<and> i \<le> j \<and> j \<le> n \<and> keyTime property i = Some a \<and>
                       keyTime property j = Some b \<longrightarrow> a \<le> b) \<longrightarrow>
              sorted (map kf_time kfs))"
proof -
  from r obtain n where n: "numKeys property = Some n"
    and k: "kfs = List.map_filter (extractKeyframe conv property frameRate n) [1..n]"
    by (auto simp: extractKeyframes_def keyframesLoop_eq split: option.splits)
  have idx: "map kf_index kfs = filter (\<lambda>i. keyTime property i \<noteq> None) [1..n]"
    by (simp add: k map_filter_index)
  have tm: "\<forall>kf \<in> set kfs. keyTime property (kf_index kf) = Some (kf_time kf)"
    using set_map_filter_keyframes by (auto simp: k)
  have inc: "sorted_wrt (<) (map kf_index kfs)"
    by (simp add: idx sorted_wrt_filter strict_sorted_iff)
  have full: "map kf_index kfs = [1..int (length kfs)]"
    if "\<forall>i \<in> set [1..n]. keyTime property i \<noteq> None"
  proof -
    have "filter (\<lambda>i. keyTime property i \<noteq> None) [1..n] = [1..n]"
      using that by (simp add: filter_True)
    then have e: "map kf_index kfs = [1..n]" using idx by simp
    then have "length kfs = length [1..n]" by (metis length_map)
    then have "int (length kfs) = (if 1 \<le> n then n else 0)" by simp
    then show ?thesis using e by (cases "1 \<le> n") simp_all
  qed
  have srt: "sorted (map kf_time kfs)"
    if "\<forall>i j a b. 1 \<le> i \<and> i \<le> j \<and> j \<le> n \<and> keyTime property i = Some a \<and>
                       keyTime property j = Some b \<longrightarrow> a \<le> b"
    using sorted_times[OF that] by (simp add: k map_filter_time)
  show ?thesis using n idx tm inc full srt by blast
qed


subsection \<open>The example properties\<close>

text \<open>The unfoldings that evaluate the extractor on the example properties.\<close>

lemmas eval_host = opacityHost_def opacityHostUnreadable_def expressionHost_def staticHost_def
  easyEase_def bezierEnum_def

lemmas eval_keyframes = extractKeyframes_def keyframesLoop.simps extractKeyframe_def
  extractTemporalEasing_def segmentBezier_def extractSpatialEasing_def
  interpolationTypeToString_def

lemma opacity_keyframes:
  "extractKeyframes convertEasingWithValues opacityHost 30 = Inr opacityKeyframes"
  by (simp add: eval_keyframes eval_host eval_easing opacityKeyframes_def)

lemma opacity_descriptor:
  "extractAnimatedProperty convertEasingWithValues opacityHost 30 = Inr (Some opacityDescriptor)"
  using opacity_keyframes by (simp add: extractAnimatedProperty_def opacityDescriptor_def eval_host)

lemma scale_descriptor:
  "extractAnimatedProperty convertEasingWithValues staticHost 30 = Inr (Some scaleDescriptor)"
  by (simp add: extractAnimatedProperty_def scaleDescriptor_def getPropertyValue_def eval_host)

text \<open>C4 on the \<open>Opacity\<close> property: both reads succeed, indices 1 and 2, times 0 and 1.\<close>

theorem C4_witness:
  "extractKeyframes convertEasingWithValues opacityHost 30 = Inr opacityKeyframes \<and>
   map kf_index opacityKeyframes = [1, 2] \<and> sorted (map kf_time opacityKeyframes)"
  using C4_keyframe_order [OF opacity_keyframes] opacity_keyframes
  by (simp add: opacityKeyframes_def)

text \<open>
  Claim C4 as stated fails when a read fails: with \<open>keyTime(1)\<close> throwing, the one
  keyframe returned has index 2, not 1.
\<close>

theorem C4_counterexample:
  "map_sum id (map kf_index) (extractKeyframes convertEasingWithValues opacityHostUnreadable 30)
     = Inr [2]"
  by (simp add: eval_keyframes eval_host eval_easing)

text \<open>
  Claim C2 at a property the host reports as time-varying that has no keyframes: the
  descriptor has \<open>isAnimated\<close> true and an empty \<open>keyframes\<close> array.
\<close>

theorem C2_expression_only:
  "extractAnimatedProperty convertEasingWithValues expressionHost 30 =
     Inr (Some \<lparr>ap_name = Some ''Opacity'', ap_matchName = Some ''ADBE Opacity'',
                ap_isAnimated = True, ap_dimensions = 1,
                ap_expression = Some ''wiggle(2, 30)'',
                ap_staticValue = None, ap_keyframes = Some []\<rparr>)"
  by (simp add: extractAnimatedProperty_def eval_keyframes eval_host)

text \<open>
  What every descriptor does satisfy: \<open>keyframes\<close> is present and \<open>staticValue\<close> absent
  when \<open>isAnimated\<close> is true, and the other way round when it is false.
\<close>

lemma descriptor_shape:
  "extractAnimatedProperty conv property frameRate = Inr (Some d) \<Longrightarrow>
     (ap_isAnimated d \<longrightarrow> ap_keyframes d \<noteq> None \<and> ap_staticValue d = None) \<and>
     (\<not> ap_isAnimated d \<longrightarrow> ap_staticValue d \<noteq> None \<and> ap_keyframes d = None)"
  by (auto simp: extractAnimatedProperty_def Let_def split: if_splits sum.splits)




section \<open>Properties of the animation summary\<close>

lemma checkProp_consistent: "summaryConsistent s \<Longrightarrow> summaryConsistent (checkProp prop s)"
  by (auto simp: summaryConsistent_def checkProp_def Let_def split: option.splits)

lemma fold_checkProp_consistent:
  "summaryConsistent s \<Longrightarrow> summaryConsistent (fold checkProp ps s)"
  by (induction ps arbitrary: s) (simp_all add: checkProp_consistent)

lemma emptySummary_consistent: "summaryConsistent emptySummary"
  by (simp add: summaryConsistent_def emptySummary_def)

lemma computeAnimationSummary_consistent: "summaryConsistent (computeAnimationSummary lt)"
  by (auto simp: computeAnimationSummary_def Let_def emptySummary_consistent
      intro!: checkProp_consistent fold_checkProp_consistent split: option.splits)

text \<open>
  Claim C10. In every summary \<open>computeAnimationSummary\<close> returns,
  \<open>animatedPropertyCount\<close> is the length of \<open>properties\<close>, \<open>totalKeyframes\<close> is the sum of
  the \<open>keyframeCount\<close> of its entries, and \<open>isAnimated\<close> holds exactly when
  \<open>animatedPropertyCount\<close> is positive.
\<close>

theorem C10_summary_consistent:
  "sum_animatedPropertyCount (computeAnimationSummary layerTransform) =
     int (length (sum_properties (computeAnimationSummary layerTransform))) \<and>
   sum_totalKeyframes (computeAnimationSummary layerTransform) =
     sum_list (map ps_keyframeCount (sum_properties (computeAnimationSummary layerTransform))) \<and>
   (sum_isAnimated (computeAnimationSummary layerTransform) \<longleftrightarrow>
     0 < sum_animatedPropertyCount (computeAnimationSummary layerTransform))"
  using computeAnimationSummary_consistent[of layerTransform]
  by (simp add: summaryConsistent_def)

lemma first_last_nth:
  "2 \<le> length kfs \<Longrightarrow> kfs ! 0 = hd kfs \<and> kfs ! (length kfs - 1) = last kfs"
  by (cases kfs) (auto simp: last_conv_nth)

lemma checkProp_properties:
  "sum_properties (checkProp prop s) = sum_properties s @ contribution prop"
proof (cases "prop")
  case None
  then show ?thesis by (simp add: checkProp_def contribution_def)
next
  case (Some p)
  show ?thesis
  proof (cases "ap_isAnimated p \<and> spec_qualifies p")
    case False
    then show ?thesis using Some
      by (auto simp: checkProp_def contribution_def spec_qualifies_def split: option.splits)
  next
    case True
    then obtain kfs where k: "ap_keyframes p = Some kfs" "2 \<le> length kfs"
      by (auto simp: spec_qualifies_def split: option.splits)
    from first_last_nth[OF k(2)] show ?thesis using Some True k
      by (simp add: checkProp_def contribution_def spec_summaryEntry_def Let_def)
  qed
qed

lemma fold_checkProp_properties:
  "sum_properties (fold checkProp ps s) = sum_properties s @ concat (map contribution ps)"
  by (induction ps arbitrary: s) (simp_all add: checkProp_properties)

lemma contribution_None [simp]: "contribution None = []"
  by (simp add: contribution_def)

lemma summary_properties_slots:
  "sum_properties (computeAnimationSummary (Some t)) = concat (map contribution (allSlots t))"
  by (simp add: computeAnimationSummary_def Let_def fold_checkProp_properties checkProp_properties
      propsToCheck_def allSlots_def emptySummary_def split: option.splits)

lemma summary_isAnimated_properties:
  "sum_isAnimated (computeAnimationSummary lt) \<longleftrightarrow> sum_properties (computeAnimationSummary lt) \<noteq> []"
proof -
  let ?s = "computeAnimationSummary lt"
  have c: "sum_animatedPropertyCount ?s = int (length (sum_properties ?s))"
    and a: "sum_isAnimated ?s \<longleftrightarrow> 0 < sum_animatedPropertyCount ?s"
    using computeAnimationSummary_consistent[of lt] by (simp_all add: summaryConsistent_def)
  show ?thesis unfolding a c by simp
qed

lemma contributions_spec:
  "\<forall>p \<in> set (setSlots ps). ap_keyframes p = None \<or> ap_isAnimated p \<Longrightarrow>
   concat (map contribution ps) = map spec_summaryEntry (filter spec_qualifies (setSlots ps))"
proof (induction ps)
  case Nil
  show ?case by simp
next
  case (Cons a ps)
  show ?case
  proof (cases a)
    case None
    have "\<forall>p \<in> set (setSlots ps). ap_keyframes p = None \<or> ap_isAnimated p"
      using Cons.prems None by simp
    from Cons.IH[OF this] show ?thesis using None by simp
  next
    case (Some p)
    have "\<forall>p \<in> set (setSlots ps). ap_keyframes p = None \<or> ap_isAnimated p"
      using Cons.prems Some by simp
    note ih = Cons.IH[OF this]
    have wfp: "ap_keyframes p = None \<or> ap_isAnimated p" using Cons.prems Some by simp
    show ?thesis
    proof (cases "spec_qualifies p")
      case True
      then have "ap_keyframes p \<noteq> None"
        by (cases "ap_keyframes p") (simp_all add: spec_qualifies_def)
      with wfp have "ap_isAnimated p" by simp
      then show ?thesis using ih True Some by (simp add: contribution_def)
    next
      case False
      then show ?thesis using ih Some by (simp add: contribution_def)
    qed
  qed
qed

text \<open>
  Claim C8. Let every scanned property that has a keyframe list be flagged animated, as
  the descriptors of \<open>extractAnimatedProperty\<close> are. Then \<open>properties\<close> holds, in
  scanning order, exactly one entry for each scanned property whose keyframe list has
  length at least 2, with the count, first and last value, duration, delay and easing the
  specification names; \<open>isAnimated\<close> holds exactly when some scanned property
  qualifies; and with no qualifying property \<open>isAnimated\<close> is false and \<open>properties\<close>
  is empty.
\<close>

theorem C8_summary_entries:
  assumes wf: "\<forall>p \<in> set (spec_scanned transform). ap_keyframes p \<noteq> None \<longrightarrow> ap_isAnimated p"
  shows "sum_properties (computeAnimationSummary (Some transform)) =
           map spec_summaryEntry (filter spec_qualifies (spec_scanned transform)) \<and>
         (sum_isAnimated (computeAnimationSummary (Some transform)) \<longleftrightarrow>
            (\<exists>p \<in> set (spec_scanned transform). spec_qualifies p)) \<and>
         ((\<forall>p \<in> set (spec_scanned transform). \<not> spec_qualifies p) \<longrightarrow>
            \<not> sum_isAnimated (computeAnimationSummary (Some transform)) \<and>
            sum_properties (computeAnimationSummary (Some transform)) = [])"
proof -
  have sc: "spec_scanned transform = setSlots (allSlots transform)"
    by (simp add: spec_scanned_def)
  have "\<forall>p \<in> set (setSlots (allSlots transform)). ap_keyframes p = None \<or> ap_isAnimated p"
    using wf unfolding sc by blast
  from contributions_spec[OF this]
  have eq: "concat (map contribution (allSlots transform)) =
      map spec_summaryEntry (filter spec_qualifies (spec_scanned transform))"
    by (simp add: sc)
  have p: "sum_properties (computeAnimationSummary (Some transform)) =
           map spec_summaryEntry (filter spec_qualifies (spec_scanned transform))"
    by (simp add: summary_properties_slots eq)
  have a: "sum_isAnimated (computeAnimationSummary (Some transform)) \<longleftrightarrow>
            (\<exists>p \<in> set (spec_scanned transform). spec_qualifies p)"
    by (simp add: summary_isAnimated_properties p filter_empty_conv)
  show ?thesis using p a by (auto simp: filter_empty_conv)
qed

text \<open>The unfoldings that evaluate the summary of the example transform.\<close>

lemmas eval_summary = computeAnimationSummary_def propsToCheck_def checkProp_def emptySummary_def
  opacityTransform_def opacityDescriptor_def scaleDescriptor_def opacityKeyframes_def Let_def

text \<open>
  C8 on the example transform: one entry, for \<open>Opacity\<close>, with 2 keyframes from 0 to
  100, duration 1, delay 0 and the Easy Ease bezier.
\<close>

theorem C8_witness:
  "sum_isAnimated (computeAnimationSummary (Some opacityTransform)) \<and>
   sum_properties (computeAnimationSummary (Some opacityTransform)) =
     [\<lparr>ps_name = Some ''Opacity'', ps_keyframeCount = 2, ps_startValue = Num 0,
       ps_endValue = Num 100, ps_duration = 1, ps_delay = 0,
       ps_easing = Some \<lparr>x1 = 3333 / 10000, y1 = Some 0, x2 = 6667 / 10000, y2 = Some 1\<rparr>\<rparr>]"
proof -
  have wf: "\<forall>p \<in> set (spec_scanned opacityTransform). ap_keyframes p \<noteq> None \<longrightarrow> ap_isAnimated p"
    by (simp add: spec_scanned_def allSlots_def opacityTransform_def opacityDescriptor_def
        scaleDescriptor_def)
  show ?thesis
    using wf C8_summary_entries [OF wf]
    by (simp add: spec_scanned_def allSlots_def spec_qualifies_def spec_summaryEntry_def opacityTransform_def
        opacityDescriptor_def scaleDescriptor_def opacityKeyframes_def)
qed

text \<open>C10 on the example transform.\<close>

theorem C10_witness:
  "sum_animatedPropertyCount (computeAnimationSummary (Some opacityTransform)) = 1 \<and>
   sum_totalKeyframes (computeAnimationSummary (Some opacityTransform)) = 2 \<and>
   sum_isAnimated (computeAnimationSummary (Some opacityTransform)) \<and>
   length (sum_properties (computeAnimationSummary (Some opacityTransform))) = 1"
  using C10_summary_consistent [of "Some opacityTransform"]
  by (simp add: eval_summary)


section \<open>Properties of the property walker\<close>

text \<open>A property kept by every step of a fold is kept by the fold.\<close>

lemma fold_preserves:
  assumes step: "\<And>x s. x \<in> set xs \<Longrightarrow> J s \<Longrightarrow> J (f x s)" and init: "J s0"
  shows "J (fold f xs s0)"
  using assms by (induction xs arbitrary: s0) auto

lemma invoke_events: "events (snd (invoke cb p d w)) = events w @ [Call p d]"
  by (simp add: invoke_def Let_def)

lemma invoke_unfinished: "unfinished (snd (invoke cb p d w)) = unfinished w"
  by (simp add: invoke_def Let_def)

lemma logBounded_invoke:
  "logBounded base lo w \<Longrightarrow> lo \<le> d \<Longrightarrow> d \<le> PROPERTY_WALK_MAX_DEPTH \<Longrightarrow>
     logBounded base lo (snd (invoke cb p d w))"
  by (auto simp: logBounded_def invoke_events)

lemma logBounded_cut: "logBounded base lo (w\<lparr>unfinished := b\<rparr>) = logBounded base lo w"
  by (simp add: logBounded_def)

text \<open>
  The \<open>catch\<close> block and the loop body keep the log bounded when the recursive call
  does and the current depth is within the bound.
\<close>

lemma walkRecover_bounded:
  assumes recur: "\<And>p s. logBounded base lo s \<Longrightarrow> logBounded base lo (recur p s)"
    and s: "logBounded base lo s" and d: "lo \<le> d" "d \<le> PROPERTY_WALK_MAX_DEPTH"
  shows "logBounded base lo (walkRecover recur h cb d prop s)"
  using recur[OF s] s logBounded_invoke[OF s d]
  by (simp add: walkRecover_def split: read.splits)

lemma walkChild_bounded:
  assumes recur: "\<And>p s. logBounded base lo s \<Longrightarrow> logBounded base lo (recur p s)"
    and s: "logBounded base lo s" and d: "lo \<le> d" "d \<le> PROPERTY_WALK_MAX_DEPTH"
  shows "logBounded base lo (walkChild recur h cb d g i s)"
proof -
  have r: "logBounded base lo (walkRecover recur h cb d p s')" if "logBounded base lo s'" for p s'
    using walkRecover_bounded[OF recur that d] .
  have i: "logBounded base lo (snd (invoke cb p d s))" for p
    using logBounded_invoke[OF s d] .
  show ?thesis
    using s r i recur[OF s]
    by (simp add: walkChild_def Let_def split: read.splits option.splits PropertyType.splits)
qed

text \<open>
  Every event \<open>walkPropertyGroup\<close> adds to the log is recorded between the depth it was
  called with and the maximum depth; by induction along the recursion of the walker, for
  every budget.
\<close>

lemma walkPropertyGroup_bounded:
  "logBounded (events w) (depthOrDefault depth0)
     (walkPropertyGroup budget h cb propertyGroup depth0 (w :: 's walk))"
proof (induction budget h cb propertyGroup depth0 w rule: walkPropertyGroup.induct)
  case (1 budget h cb propertyGroup depth0 w)
  let ?d = "depthOrDefault depth0"
  have base: "logBounded (events w) ?d w" by (simp add: logBounded_def)
  show ?case
  proof (cases "PROPERTY_WALK_MAX_DEPTH < ?d")
    case True
    then show ?thesis using base by (subst walkPropertyGroup.simps) simp
  next
    case shallow: False
    show ?thesis
    proof (cases propertyGroup)
      case None
      then show ?thesis using base by (subst walkPropertyGroup.simps) simp
    next
      case (Some g)
      show ?thesis
      proof (cases "numProperties (h g)")
        case Throws
        then show ?thesis using base Some by (subst walkPropertyGroup.simps) simp
      next
        case Falsy
        then show ?thesis using base Some by (subst walkPropertyGroup.simps) simp
      next
        case (Got n)
        show ?thesis
        proof (cases "js_le_zero n")
          case True
          then show ?thesis using base Some Got by (subst walkPropertyGroup.simps) simp
        next
          case False
          let ?recur = "\<lambda>prop s. walkPropertyGroup budget h cb (Some prop) (Some (?d + 1)) s"
          let ?is = "fst (loopIndices budget 1 n)"
          let ?w0 = "w\<lparr>events := events w @ [Enter g ?d]\<rparr>"
          have init: "logBounded (events w) ?d ?w0"
            using shallow by (simp add: logBounded_def)
          have "logBounded (events w) ?d (fold (walkChild ?recur h cb ?d g) ?is ?w0)"
          proof (rule fold_preserves[where J = "logBounded (events w) ?d"])
            fix x and s :: "'s walk"
            assume x: "x \<in> set ?is" and s: "logBounded (events w) ?d s"
            have recur: "logBounded (events w) ?d (?recur p s')"
              if s': "logBounded (events w) ?d s'" for p s'
            proof -
              have "logBounded (events s') (?d + 1) (?recur p s')"
                using "1.IH"[OF shallow Some Got False x, where xa = p and xb = s']
                by (simp add: depthOrDefault_def)
              then show ?thesis using s' by (fastforce simp: logBounded_def)
            qed
            show "logBounded (events w) ?d (walkChild ?recur h cb ?d g x s)"
              using walkChild_bounded[where recur = ?recur, OF recur s] shallow by simp
          qed (rule init)
          then show ?thesis using shallow Some Got False
            by (subst walkPropertyGroup.simps) (simp add: Let_def logBounded_cut)
        qed
      qed
    qed
  qed
qed

subsection \<open>The loop header\<close>

text \<open>
  A loop over a count that is NaN, minus infinity or a finite number below \<open>2^53\<close> ends
  within \<open>2^53\<close> iterations; a loop over any other count has not ended after any number
  of iterations. A loop that has ended visits the same indices under a larger budget.
\<close>

lemma loop_finite:
  "r < 2 ^ 53 \<Longrightarrow> nat (\<lfloor>r\<rfloor> + 1 - i) \<le> b \<Longrightarrow> snd (loopIndices b i (Finite r))"
proof (induction b arbitrary: i)
  case 0
  then have "\<lfloor>r\<rfloor> < i" by simp
  then have "r < real_of_int i" by linarith
  then show ?case by (simp add: js_int_le_def)
next
  case (Suc b)
  show ?case
  proof (cases "real_of_int i \<le> r")
    case True
    then have "i \<le> \<lfloor>r\<rfloor>" by linarith
    moreover have "\<lfloor>r\<rfloor> < 2 ^ 53" using Suc.prems(1) by (simp add: floor_less_iff)
    ultimately have "i < 2 ^ 53" by (rule le_less_trans)
    then have inc: "js_increment i = i + 1" by (simp add: js_increment_def)
    have "nat (\<lfloor>r\<rfloor> + 1 - (i + 1)) \<le> b" using Suc.prems(2) \<open>i \<le> \<lfloor>r\<rfloor>\<close> by linarith
    from Suc.IH[OF Suc.prems(1) this] show ?thesis
      using True by (simp add: js_int_le_def inc Let_def)
  next
    case False
    then show ?thesis by (simp add: js_int_le_def)
  qed
qed

lemma loop_no_iteration:
  "\<not> js_int_le i n \<Longrightarrow> loopIndices b i n = ([], True)"
  by (cases b) simp_all

lemma finite_ends: "finiteCount n \<Longrightarrow> loopEnds (2 ^ 53) n"
proof (cases n)
  case (Finite r)
  assume "finiteCount n"
  then have r: "r < 2 ^ 53" using Finite by (simp add: finiteCount_def)
  then have "\<lfloor>r\<rfloor> < 2 ^ 53" by (simp add: floor_less_iff)
  then have "nat (\<lfloor>r\<rfloor> + 1 - 1) \<le> 2 ^ 53" by (simp add: nat_le_iff)
  from loop_finite[OF r this] show ?thesis using Finite by (simp add: loopEnds_def)
qed (simp_all add: loopEnds_def finiteCount_def loop_no_iteration js_int_le_def)

lemma loop_never_ends:
  "\<not> finiteCount n \<Longrightarrow> i \<le> 2 ^ 53 \<Longrightarrow> \<not> snd (loopIndices b i n)"
proof (induction b arbitrary: i)
  case 0
  then show ?case
    by (cases n) (auto simp: finiteCount_def js_int_le_def)
next
  case (Suc b)
  have le: "js_int_le i n"
    using Suc.prems by (cases n) (auto simp: finiteCount_def js_int_le_def)
  have "js_increment i \<le> 2 ^ 53" using Suc.prems(2) by (simp add: js_increment_def)
  from Suc.IH[OF Suc.prems(1) this] show ?case using le by (simp add: Let_def)
qed

lemma not_finite_never_ends: "\<not> finiteCount n \<Longrightarrow> \<not> loopEnds budget n"
  using loop_never_ends[of n 1 budget] by (simp add: loopEnds_def)

lemma not_finite_positive: "\<not> finiteCount n \<Longrightarrow> \<not> js_le_zero n"
proof (cases n)
  case (Finite r)
  assume "\<not> finiteCount n"
  then have "(2::real) ^ 53 \<le> r" using Finite by (simp add: finiteCount_def)
  then have "0 < r" by (rule less_le_trans[rotated]) simp
  then show ?thesis using Finite by (simp add: js_le_zero_def)
qed (simp_all add: finiteCount_def js_le_zero_def)

lemma loopIndices_more:
  "snd (loopIndices b i n) \<Longrightarrow> loopIndices (b + m) i n = loopIndices b i n"
proof (induction b arbitrary: i)
  case 0
  then show ?case by (simp add: loop_no_iteration)
next
  case (Suc b)
  show ?case
  proof (cases "js_int_le i n")
    case True
    with Suc.prems have "snd (loopIndices b (js_increment i) n)" by (simp add: Let_def)
    from Suc.IH[OF this] show ?thesis using True by (simp add: Let_def)
  next
    case False
    then show ?thesis by simp
  qed
qed

subsection \<open>Returning\<close>

text \<open>
  When the loop over every node's count ends within the budget, no run is cut, and a
  larger budget changes nothing.
\<close>

lemma walkRecover_finished:
  assumes recur: "\<And>p s. \<not> unfinished s \<Longrightarrow> \<not> unfinished (recur p s)"
    and s: "\<not> unfinished s"
  shows "\<not> unfinished (walkRecover recur h cb d prop s)"
  using recur[OF s] s
  by (simp add: walkRecover_def invoke_unfinished split: read.splits)

lemma walkChild_finished:
  assumes recur: "\<And>p s. \<not> unfinished s \<Longrightarrow> \<not> unfinished (recur p s)"
    and s: "\<not> unfinished s"
  shows "\<not> unfinished (walkChild recur h cb d g i s)"
proof -
  have r: "\<not> unfinished (walkRecover recur h cb d p s')" if "\<not> unfinished s'" for p s'
    using walkRecover_finished[OF recur that] .
  show ?thesis
    using s r recur[OF s]
    by (simp add: walkChild_def Let_def invoke_unfinished
        split: read.splits option.splits PropertyType.splits)
qed

lemma walkPropertyGroup_returns:
  "(\<forall>r n. numProperties (h r) = Got n \<longrightarrow> loopEnds budget n) \<Longrightarrow> \<not> unfinished w \<Longrightarrow>
   \<not> unfinished (walkPropertyGroup budget h cb propertyGroup depth0 (w :: 's walk))"
proof (induction budget h cb propertyGroup depth0 w rule: walkPropertyGroup.induct)
  case (1 budget h cb propertyGroup depth0 w)
  let ?d = "depthOrDefault depth0"
  note w = \<open>\<not> unfinished w\<close>
  show ?case
  proof (cases "PROPERTY_WALK_MAX_DEPTH < ?d")
    case True
    then show ?thesis using w by (subst walkPropertyGroup.simps) simp
  next
    case shallow: False
    show ?thesis
    proof (cases propertyGroup)
      case None
      then show ?thesis using w by (subst walkPropertyGroup.simps) simp
    next
      case (Some g)
      show ?thesis
      proof (cases "numProperties (h g)")
        case Throws
        then show ?thesis using w Some by (subst walkPropertyGroup.simps) simp
      next
        case Falsy
        then show ?thesis using w Some by (subst walkPropertyGroup.simps) simp
      next
        case (Got n)
        show ?thesis
        proof (cases "js_le_zero n")
          case True
          then show ?thesis using w Some Got by (subst walkPropertyGroup.simps) simp
        next
          case False
          let ?recur = "\<lambda>prop s. walkPropertyGroup budget h cb (Some prop) (Some (?d + 1)) s"
          let ?is = "fst (loopIndices budget 1 n)"
          let ?w0 = "w\<lparr>events := events w @ [Enter g ?d]\<rparr>"
          have ends: "snd (loopIndices budget 1 n)"
            using "1.prems"(1) Got by (simp add: loopEnds_def)
          have "\<not> unfinished (fold (walkChild ?recur h cb ?d g) ?is ?w0)"
          proof (rule fold_preserves[where J = "\<lambda>s. \<not> unfinished s"])
            fix x and s :: "'s walk"
            assume x: "x \<in> set ?is" and s: "\<not> unfinished s"
            have recur: "\<not> unfinished (?recur p s')" if "\<not> unfinished s'" for p s'
              using "1.IH"[OF shallow Some Got False x "1.prems"(1) that] .
            show "\<not> unfinished (walkChild ?recur h cb ?d g x s)"
              using walkChild_finished[where recur = ?recur, OF recur s] .
          qed (simp add: w)
          then show ?thesis using shallow Some Got False ends
            by (subst walkPropertyGroup.simps) (simp add: Let_def)
        qed
      qed
    qed
  qed
qed

lemma fold_same:
  "(\<And>x s. x \<in> set xs \<Longrightarrow> f x s = f' x s) \<Longrightarrow> fold f xs s0 = fold f' xs s0"
  by (induction xs arbitrary: s0) auto

lemma walkChild_same:
  "(\<And>p s. recur p s = recur' p s) \<Longrightarrow>
   walkChild recur h cb d g i w = walkChild recur' h cb d g i w"
  by (simp add: walkChild_def walkRecover_def Let_def
      split: read.splits option.splits PropertyType.splits)

lemma walkPropertyGroup_more_budget:
  "(\<forall>r n. numProperties (h r) = Got n \<longrightarrow> loopEnds budget n) \<Longrightarrow>
   walkPropertyGroup (budget + m) h cb propertyGroup depth0 w =
   walkPropertyGroup budget h cb propertyGroup depth0 (w :: 's walk)"
proof (induction budget h cb propertyGroup depth0 w rule: walkPropertyGroup.induct)
  case (1 budget h cb propertyGroup depth0 w)
  let ?d = "depthOrDefault depth0"
  have L: "walkPropertyGroup (budget + m) h cb propertyGroup depth0 w =
     (if ?d > PROPERTY_WALK_MAX_DEPTH then w
      else
        (case propertyGroup of
           None \<Rightarrow> w
         | Some g \<Rightarrow>
             (case numProperties (h g) of
                Throws \<Rightarrow> w
              | Falsy \<Rightarrow> w
              | Got numProps \<Rightarrow>
                  if js_le_zero numProps then w
                  else
                    (let after =
                       fold
                         (walkChild
                            (\<lambda>prop s. walkPropertyGroup (budget + m) h cb (Some prop)
                                         (Some (?d + 1)) s)
                            h cb ?d g)
                         (fst (loopIndices (budget + m) 1 numProps))
                         (w\<lparr>events := events w @ [Enter g ?d]\<rparr>)
                     in if snd (loopIndices (budget + m) 1 numProps) then after
                        else after\<lparr>unfinished := True\<rparr>))))"
    by (rule walkPropertyGroup.simps)
  have R: "walkPropertyGroup budget h cb propertyGroup depth0 w =
     (if ?d > PROPERTY_WALK_MAX_DEPTH then w
      else
        (case propertyGroup of
           None \<Rightarrow> w
         | Some g \<Rightarrow>
             (case numProperties (h g) of
                Throws \<Rightarrow> w
              | Falsy \<Rightarrow> w
              | Got numProps \<Rightarrow>
                  if js_le_zero numProps then w
                  else
                    (let after =
                       fold
                         (walkChild
                            (\<lambda>prop s. walkPropertyGroup budget h cb (Some prop)
                                         (Some (?d + 1)) s)
                            h cb ?d g)
                         (fst (loopIndices budget 1 numProps))
                         (w\<lparr>events := events w @ [Enter g ?d]\<rparr>)
                     in if snd (loopIndices budget 1 numProps) then after
                        else after\<lparr>unfinished := True\<rparr>))))"
    by (rule walkPropertyGroup.simps)
  show ?case
  proof (cases "PROPERTY_WALK_MAX_DEPTH < ?d")
    case True
    then show ?thesis unfolding L R by simp
  next
    case shallow: False
    show ?thesis
    proof (cases propertyGroup)
      case None
      then show ?thesis unfolding L R by simp
    next
      case (Some g)
      show ?thesis
      proof (cases "numProperties (h g)")
        case Throws
        then show ?thesis unfolding L R using Some by simp
      next
        case Falsy
        then show ?thesis unfolding L R using Some by simp
      next
        case (Got n)
        show ?thesis
        proof (cases "js_le_zero n")
          case True
          then show ?thesis unfolding L R using Some Got by simp
        next
          case False
          let ?is = "fst (loopIndices budget 1 n)"
          let ?w0 = "w\<lparr>events := events w @ [Enter g ?d]\<rparr>"
          have ends: "snd (loopIndices budget 1 n)"
            using "1.prems" Got by (simp add: loopEnds_def)
          have same: "loopIndices (budget + m) 1 n = loopIndices budget 1 n"
            using loopIndices_more[OF ends] .
          have "fold (walkChild (\<lambda>prop s. walkPropertyGroup (budget + m) h cb (Some prop)
                                   (Some (?d + 1)) s) h cb ?d g) ?is ?w0 =
                fold (walkChild (\<lambda>prop s. walkPropertyGroup budget h cb (Some prop)
                                   (Some (?d + 1)) s) h cb ?d g) ?is ?w0"
          proof (rule fold_same)
            fix x and s :: "'s walk"
            assume x: "x \<in> set ?is"
            show "walkChild (\<lambda>prop s. walkPropertyGroup (budget + m) h cb (Some prop)
                               (Some (?d + 1)) s) h cb ?d g x s =
                  walkChild (\<lambda>prop s. walkPropertyGroup budget h cb (Some prop)
                               (Some (?d + 1)) s) h cb ?d g x s"
              by (rule walkChild_same) (rule "1.IH"[OF shallow Some Got False x "1.prems"])
          qed
          then show ?thesis unfolding L R using shallow Some Got False
            by (simp add: same Let_def)
        qed
      qed
    qed
  qed
qed

text \<open>A group whose count no loop counter can pass cuts every run that enumerates it.\<close>

lemma not_finite_unfinished:
  assumes "numProperties (h g) = Got n" "\<not> finiteCount n"
    "depthOrDefault depth0 \<le> PROPERTY_WALK_MAX_DEPTH"
  shows "unfinished (walkPropertyGroup budget h cb (Some g) depth0 w)"
  using assms not_finite_positive[OF assms(2)] not_finite_never_ends[OF assms(2), of budget]
  by (subst walkPropertyGroup.simps) (simp add: Let_def loopEnds_def)


text \<open>
  Claim C5, as the code behaves. Whatever the store, cyclic ones included, and at every
  point of a run (the budget is arbitrary): every event \<open>walkPropertyGroup\<close> records, an
  enumeration of a group's children or an invocation of the callback, has a depth from
  the starting depth up to \<open>PROPERTY_WALK_MAX_DEPTH\<close>; called with a depth beyond the
  bound the walker returns at once, leaving the log and the callback's state untouched;
  and the bound is 20. The walk returns when the loops over the child counts end: with a
  budget within which the loop over every node's count ends no run is cut, and a larger
  budget gives the same result. The loops that end are those over a count that is NaN,
  minus infinity or a finite number below \<open>2^53\<close>, and they end within \<open>2^53\<close>
  iterations: on a store with only such counts the walk returns. A group within the depth bound whose count is \<open>Infinity\<close>, or a number
  from \<open>2^53\<close> on, cuts the run under every budget: that walk does not return.
\<close>

theorem C5_walk_depth_bounded:
  "(\<forall>ev \<in> set (events (walkPropertyGroup budget h cb propertyGroup depth w)).
      ev \<in> set (events w) \<or>
      (depthOrDefault depth \<le> eventDepth ev \<and> eventDepth ev \<le> PROPERTY_WALK_MAX_DEPTH)) \<and>
   (PROPERTY_WALK_MAX_DEPTH < depthOrDefault depth \<longrightarrow>
      walkPropertyGroup budget h cb propertyGroup depth w = w) \<and>
   PROPERTY_WALK_MAX_DEPTH = 20 \<and>
   ((\<forall>r n. numProperties (h r) = Got n \<longrightarrow> loopEnds budget n) \<longrightarrow>
      (\<not> unfinished w \<longrightarrow>
         \<not> unfinished (walkPropertyGroup budget h cb propertyGroup depth w)) \<and>
      walkPropertyGroup (budget + m) h cb propertyGroup depth w =
        walkPropertyGroup budget h cb propertyGroup depth w) \<and>
   (finiteCount numProps \<longrightarrow> loopEnds (2 ^ 53) numProps) \<and>
   (\<not> finiteCount numProps \<longrightarrow> \<not> loopEnds budget numProps) \<and>
   ((\<forall>r n. numProperties (h r) = Got n \<longrightarrow> finiteCount n) \<and> \<not> unfinished w \<longrightarrow>
      \<not> unfinished (walkPropertyGroup (2 ^ 53) h cb propertyGroup depth w)) \<and>
   (numProperties (h g) = Got numProps \<and> \<not> finiteCount numProps \<and>
    depthOrDefault depth \<le> PROPERTY_WALK_MAX_DEPTH \<longrightarrow>
      unfinished (walkPropertyGroup budget h cb (Some g) depth w))"
proof -
  have "logBounded (events w) (depthOrDefault depth)
          (walkPropertyGroup budget h cb propertyGroup depth w)"
    by (rule walkPropertyGroup_bounded)
  then have a: "\<forall>ev \<in> set (events (walkPropertyGroup budget h cb propertyGroup depth w)).
      ev \<in> set (events w) \<or>
      (depthOrDefault depth \<le> eventDepth ev \<and> eventDepth ev \<le> PROPERTY_WALK_MAX_DEPTH)"
    by (simp add: logBounded_def)
  have b: "walkPropertyGroup budget h cb propertyGroup depth w = w"
    if "PROPERTY_WALK_MAX_DEPTH < depthOrDefault depth"
    using that by (subst walkPropertyGroup.simps) simp
  have c: "PROPERTY_WALK_MAX_DEPTH = 20" by (simp add: PROPERTY_WALK_MAX_DEPTH_def)
  have d: "\<not> unfinished (walkPropertyGroup budget h cb propertyGroup depth w)"
    if "\<forall>r n. numProperties (h r) = Got n \<longrightarrow> loopEnds budget n" "\<not> unfinished w"
    using walkPropertyGroup_returns[OF that] .
  have e: "walkPropertyGroup (budget + m) h cb propertyGroup depth w =
        walkPropertyGroup budget h cb propertyGroup depth w"
    if "\<forall>r n. numProperties (h r) = Got n \<longrightarrow> loopEnds budget n"
    using walkPropertyGroup_more_budget[OF that] .
  have f: "unfinished (walkPropertyGroup budget h cb (Some g) depth w)"
    if "numProperties (h g) = Got numProps" "\<not> finiteCount numProps"
       "depthOrDefault depth \<le> PROPERTY_WALK_MAX_DEPTH"
    using that by (rule not_finite_unfinished)
  have g: "\<not> unfinished (walkPropertyGroup (2 ^ 53) h cb propertyGroup depth w)"
    if fin: "\<forall>r n. numProperties (h r) = Got n \<longrightarrow> finiteCount n" and w: "\<not> unfinished w"
  proof -
    from fin have "\<forall>r n. numProperties (h r) = Got n \<longrightarrow> loopEnds (2 ^ 53) n"
      using finite_ends by blast
    from walkPropertyGroup_returns[OF this w] show ?thesis .
  qed
  show ?thesis
    using a b c d e f g finite_ends[of numProps] not_finite_never_ends[of numProps budget]
    by blast
qed

subsection \<open>The example stores\<close>

lemma loop_two: "loopIndices (Suc (Suc b)) 1 (Finite 2) = ([1, 2], True)"
  by (cases b) (simp_all add: js_int_le_def js_increment_def Let_def)

text \<open>
  On the self-referential store the walk from any depth up to 21 enters group 0 and
  reports leaf 1 once per remaining depth, and returns.
\<close>

lemma cyclic_walk:
  "depthOrDefault depth0 \<le> 21 \<Longrightarrow>
   walkPropertyGroup (Suc (Suc b)) cyclicHeap countingCallback (Some 0) depth0
       \<lparr>unfinished = False, events = ev, cbState = n\<rparr> =
     \<lparr>unfinished = False,
      events = ev @ concat (map (\<lambda>k. [Enter 0 k, Call 1 k]) [depthOrDefault depth0..20]),
      cbState = n + nat (21 - depthOrDefault depth0)\<rparr>"
proof (induction "nat (21 - depthOrDefault depth0)" arbitrary: depth0 ev n)
  case 0
  then have "depthOrDefault depth0 = 21" by simp
  then show ?case
    by (subst walkPropertyGroup.simps) (simp add: PROPERTY_WALK_MAX_DEPTH_def)
next
  case (Suc k)
  let ?d = "depthOrDefault depth0"
  from Suc have d: "?d \<le> 20" by simp
  have next_depth: "depthOrDefault (Some (?d + 1)) = ?d + 1" by (simp add: depthOrDefault_def)
  have k: "k = nat (21 - depthOrDefault (Some (?d + 1)))" using Suc.hyps(2) by (simp add: next_depth)
  have le: "depthOrDefault (Some (?d + 1)) \<le> 21" using d by (simp add: next_depth)
  note ih = Suc.hyps(1)[OF k le, unfolded next_depth]
  have up: "[?d..20] = ?d # [?d + 1..20]" using d by (simp add: upto_rec1)
  have nn: "Suc n + nat (20 - ?d) = n + nat (21 - ?d)" using d by simp
  show ?case
    using d
    by (subst walkPropertyGroup.simps)
       (simp add: PROPERTY_WALK_MAX_DEPTH_def cyclicHeap_def leafNode_def js_le_zero_def
          countingCallback_def walkChild_def walkRecover_def invoke_def Let_def up loop_two
          nn ih del: loopIndices.simps)
qed

text \<open>
  On a store whose group reports a count that no loop counter can pass, and answers
  every index with a leaf, the loop is still running after any number of iterations,
  having invoked the callback once in each.
\<close>

lemma endless_step:
  "walkChild recur (endlessHeap n) countingCallback d 0 i
       \<lparr>unfinished = False, events = ev, cbState = c\<rparr> =
     \<lparr>unfinished = False, events = ev @ [Call 1 d], cbState = Suc c\<rparr>"
  by (simp add: walkChild_def endlessHeap_def leafNode_def invoke_def countingCallback_def
      Let_def)

lemma endless_fold:
  "fold (walkChild recur (endlessHeap n) countingCallback d 0) is
       \<lparr>unfinished = False, events = ev, cbState = c\<rparr> =
     \<lparr>unfinished = False, events = ev @ replicate (length is) (Call 1 d),
      cbState = c + length is\<rparr>"
proof (induction "is" arbitrary: ev c)
  case Nil
  show ?case by simp
next
  case (Cons i "is")
  show ?case
    by (simp add: endless_step Cons replicate_app_Cons_same)
qed

lemma loop_never_length:
  "\<not> finiteCount n \<Longrightarrow> i \<le> 2 ^ 53 \<Longrightarrow> length (fst (loopIndices b i n)) = b"
proof (induction b arbitrary: i)
  case 0
  show ?case by simp
next
  case (Suc b)
  have le: "js_int_le i n"
    using Suc.prems by (cases n) (auto simp: finiteCount_def js_int_le_def)
  have "js_increment i \<le> 2 ^ 53" using Suc.prems(2) by (simp add: js_increment_def)
  from Suc.IH[OF Suc.prems(1) this] show ?case using le by (simp add: Let_def)
qed

lemma endless_walk:
  assumes n: "\<not> finiteCount n"
  shows "walkPropertyGroup b (endlessHeap n) countingCallback (Some 0) None freshWalk =
     \<lparr>unfinished = True, events = Enter 0 0 # replicate b (Call 1 0), cbState = b\<rparr>"
proof -
  have len: "length (fst (loopIndices b 1 n)) = b"
    using loop_never_length[OF n, of 1 b] by simp
  have cut: "\<not> snd (loopIndices b 1 n)"
    using loop_never_ends[OF n, of 1 b] by simp
  have run: "fold (walkChild recur (endlessHeap n) countingCallback 0 0)
               (fst (loopIndices b 1 n))
               \<lparr>unfinished = False, events = [Enter 0 0], cbState = 0\<rparr> =
             \<lparr>unfinished = False, events = Enter 0 0 # replicate b (Call 1 0), cbState = b\<rparr>"
    for recur
    using len by (simp add: endless_fold)
  have count: "numProperties (endlessHeap n 0) = Got n"
    by (simp add: endlessHeap_def)
  show ?thesis
    using cut not_finite_positive[OF n]
    by (subst walkPropertyGroup.simps)
       (simp add: PROPERTY_WALK_MAX_DEPTH_def depthOrDefault_def freshWalk_def
          count run Let_def del: loopIndices.simps)
qed

text \<open>
  Claim C5 as stated fails on a group whose \<open>numProperties\<close> is \<open>Infinity\<close>: after 3
  iterations, and after 1000, the loop over its children is still running. So it is on a
  group whose \<open>numProperties\<close> is \<open>2^53\<close>: once the counter has reached \<open>2^53\<close> it
  passes the test of the loop and the increment leaves it where it is.
\<close>

theorem C5_counterexample:
  "numProperties (endlessHeap PosInfinity 0) = Got PosInfinity \<and>
   walkPropertyGroup 3 (endlessHeap PosInfinity) countingCallback (Some 0) None freshWalk =
     \<lparr>unfinished = True, events = [Enter 0 0, Call 1 0, Call 1 0, Call 1 0], cbState = 3\<rparr> \<and>
   walkPropertyGroup 1000 (endlessHeap PosInfinity) countingCallback (Some 0) None freshWalk =
     \<lparr>unfinished = True, events = Enter 0 0 # replicate 1000 (Call 1 0), cbState = 1000\<rparr> \<and>
   walkPropertyGroup 1000 (endlessHeap (Finite (2 ^ 53))) countingCallback (Some 0) None
       freshWalk =
     \<lparr>unfinished = True, events = Enter 0 0 # replicate 1000 (Call 1 0), cbState = 1000\<rparr> \<and>
   js_int_le (2 ^ 53) (Finite (2 ^ 53)) \<and>
   js_increment (2 ^ 53) = 2 ^ 53"
proof -
  have inf: "\<not> finiteCount PosInfinity" and big: "\<not> finiteCount (Finite (2 ^ 53))"
    by (simp_all add: finiteCount_def)
  show ?thesis
    using endless_walk [OF inf, of 3] endless_walk [OF inf, of 1000]
      endless_walk [OF big, of 1000]
    by (simp add: endlessHeap_def numeral_3_eq_3 js_int_le_def js_increment_def)
qed

text \<open>
  C5 on the self-referential store, whose loops end within two iterations: from the
  default depth the walk returns after 21 callback invocations, at depths 0 to 20, and a
  larger budget gives the same; from depth 21 nothing happens. On the store whose group
  reports infinitely many children the run is cut.
\<close>

theorem C5_witness:
  "walkPropertyGroup 2 cyclicHeap countingCallback (Some 0) None freshWalk =
     \<lparr>unfinished = False, events = concat (map (\<lambda>d. [Enter 0 d, Call 1 d]) [0..20]),
      cbState = 21\<rparr> \<and>
   walkPropertyGroup (2 + 5) cyclicHeap countingCallback (Some 0) None freshWalk =
     walkPropertyGroup 2 cyclicHeap countingCallback (Some 0) None freshWalk \<and>
   walkPropertyGroup 2 cyclicHeap countingCallback (Some 0) (Some 21) freshWalk = freshWalk \<and>
   loopEnds (2 ^ 53) (Finite 2) \<and>
   \<not> loopEnds 2 PosInfinity \<and>
   \<not> unfinished (walkPropertyGroup (2 ^ 53) cyclicHeap countingCallback (Some 0) None freshWalk) \<and>
   unfinished (walkPropertyGroup 2 (endlessHeap PosInfinity) countingCallback (Some 0) None
                 freshWalk)"
proof -
  have two: "(2::nat) = Suc (Suc 0)" by simp
  have ends: "\<forall>r n. numProperties (cyclicHeap r) = Got n \<longrightarrow> loopEnds 2 n"
    unfolding two
    by (simp add: cyclicHeap_def leafNode_def loopEnds_def loop_two del: loopIndices.simps)
  have fin: "finiteCount (Finite 2)" "\<not> finiteCount PosInfinity"
    by (simp_all add: finiteCount_def)
  have counts: "\<forall>r n. numProperties (cyclicHeap r) = Got n \<longrightarrow> finiteCount n"
    by (simp add: cyclicHeap_def leafNode_def finiteCount_def)
  have fresh: "\<not> unfinished freshWalk" by (simp add: freshWalk_def)
  have big: "\<not> unfinished (walkPropertyGroup (2 ^ 53) cyclicHeap countingCallback (Some 0) None
                freshWalk)"
    using counts fresh
      C5_walk_depth_bounded [of 2 cyclicHeap countingCallback "Some 0" None freshWalk 5
        "Finite 2" 0]
    by blast
  have inf: "numProperties (endlessHeap PosInfinity 0) = Got PosInfinity"
    by (simp add: endlessHeap_def)
  have run: "walkPropertyGroup 2 cyclicHeap countingCallback (Some 0) None freshWalk =
     \<lparr>unfinished = False, events = concat (map (\<lambda>d. [Enter 0 d, Call 1 d]) [0..20]),
      cbState = 21\<rparr>"
    unfolding two freshWalk_def using cyclic_walk [of None 0 "[]" 0]
    by (simp add: depthOrDefault_def)
  show ?thesis
    using ends fin inf run big
      C5_walk_depth_bounded [of 2 cyclicHeap countingCallback "Some 0" None freshWalk 5
        "Finite 2" 0]
      C5_walk_depth_bounded [of 2 cyclicHeap countingCallback "Some 0" "Some 21" freshWalk 5
        PosInfinity 0]
      C5_walk_depth_bounded [of 2 "endlessHeap PosInfinity" countingCallback "Some 0" None
        freshWalk 5 PosInfinity 0]
    by (simp add: depthOrDefault_def freshWalk_def)
qed

section \<open>Properties of the shape extractor\<close>






subsection \<open>Returning\<close>





subsection \<open>More room on the stack changes nothing once the content fits\<close>





subsection \<open>An infinite count\<close>







end
